theory Spec2Isabelle
  imports Main "HOL-Library.Product_Lexorder"
begin

section \<open>Text\<close>

text \<open>
  A Python \<open>str\<close> is a sequence of code points. The model is \<open>string\<close> with each
  \<open>char\<close> read as one code point in the range 0..255 (the Latin-1 block), which
  covers the Spanish place names of the feed. On that range \<open>str.isspace\<close> holds of
  the code points below, and \<open>str.lower\<close> moves A..Z and the accented capitals
  (192..222 without the multiplication sign 215) up by 32. Text with code points
  beyond 255 is outside this model: there \<open>str.lower\<close> is no map of single
  characters (it reads the Greek capital sigma by its position in the word, and
  turns U+0130 into two code points).
\<close>

definition isspace :: "char \<Rightarrow> bool" where
  "isspace c = (of_char c \<in> set [9, 10, 11, 12, 13, 28, 29, 30, 31, 32, 133, 160 :: nat])"

definition lower_chr :: "char \<Rightarrow> char" where
  "lower_chr c =
     (let n = (of_char c :: nat)
      in if (65 \<le> n \<and> n \<le> 90) \<or> (192 \<le> n \<and> n \<le> 222 \<and> n \<noteq> 215)
         then char_of (n + 32) else c)"

definition lower :: "string \<Rightarrow> string" where
  "lower s = map lower_chr s"

text \<open>\<open>s.strip()\<close>: drop the leading and the trailing whitespace.\<close>

definition strip :: "string \<Rightarrow> string" where
  "strip s = rev (dropWhile isspace (rev (dropWhile isspace s)))"

text \<open>
  \<open>s.split()\<close> with no separator: one left-to-right scan, \<open>w\<close> holding the word
  read so far; a whitespace code point closes the word when there is one, so runs of
  whitespace and whitespace at either end produce no empty word.
\<close>

fun split_from :: "string \<Rightarrow> string \<Rightarrow> string list" where
  "split_from w [] = (if w = [] then [] else [w])"
| "split_from w (c # cs) =
     (if isspace c then (if w = [] then split_from [] cs else w # split_from [] cs)
      else split_from (w @ [c]) cs)"

definition split_ws :: "string \<Rightarrow> string list" where
  "split_ws s = split_from [] s"

text \<open>\<open>sep.join(parts)\<close>.\<close>

fun join :: "string \<Rightarrow> string list \<Rightarrow> string" where
  "join sep [] = []"
| "join sep [p] = p"
| "join sep (p # q # ps) = p @ sep @ join sep (q # ps)"

text \<open>\<open>s.split(sep)\<close> with a one-character separator: empty pieces are kept.\<close>

fun split_on :: "char \<Rightarrow> string \<Rightarrow> string list" where
  "split_on sep [] = [[]]"
| "split_on sep (c # cs) =
     (if c = sep then [] # split_on sep cs
      else (case split_on sep cs of
              [] \<Rightarrow> [[c]]
            | p # ps \<Rightarrow> (c # p) # ps))"

definition normalize_place :: "string \<Rightarrow> string" where
  "normalize_place s = join '' '' (split_ws (lower (strip s)))"


section \<open>Errors, events and the run state\<close>

text \<open>
  The exceptions the script can raise: \<open>RequestError\<close> stands for whatever
  \<open>requests.get\<close>, \<open>raise_for_status\<close> and \<open>r.json()\<close> raise; \<open>ItemError\<close> for the
  \<open>KeyError\<close>, \<open>TypeError\<close> or \<open>ValueError\<close> of reading \<open>lat\<close> and \<open>lon\<close> of a
  candidate; \<open>ValueError\<close> is that of \<open>strptime\<close>; \<open>IndexError\<close> that of indexing
  an empty list.
\<close>

datatype py_error = RequestError | ItemError | ValueError | IndexError

record 'c geopoint =
  lat :: 'c
  lon :: 'c
  display_name :: "string option"

text \<open>
  One candidate of the geocoding provider's answer. A field is \<open>None\<close> when the key
  is missing or its value does not convert with \<open>float\<close>.
\<close>

record 'c item =
  item_lat :: "'c option"
  item_lon :: "'c option"
  item_display_name :: "string option"

datatype 'c nominatim_reply = RequestFailed | Candidates "'c item list"

text \<open>A cell of a row: the column is absent, holds NaN, or holds a value shown by \<open>str\<close>.\<close>

datatype cell = Absent | NaN | Val string

datatype log_event =
    SinDestino cell
  | SinOrigen cell string
  | SinViajeId cell
  | Caducado string string string
  | NoGeocodifica string string "string list"
  | OsrmFallo string

record 'c geometry =
  gtype :: string
  coordinates :: "('c \<times> 'c) list"

record 'c feature =
  f_geometry :: "'c geometry"
  f_name :: string
  f_viaje_id :: string
  f_fecha :: string
  f_hora_salida :: string
  f_hora_llegada :: string
  f_origen :: string
  f_destino :: string
  f_paradas :: string
  f_num_paradas :: nat

text \<open>
  Everything the run mutates: the cache dictionary (a key mapped to \<open>None\<close> is the
  marker of a place the provider does not know), the queries sent to the geocoding
  provider so far, the log lines, and the two accumulators of \<open>main\<close>.
\<close>

record 'c state =
  cache :: "string \<rightharpoonup> 'c geopoint option"
  lookups :: "string list"
  logged :: "log_event list"
  features :: "'c feature list"
  descartados :: nat

definition log :: "log_event \<Rightarrow> 'c state \<Rightarrow> 'c state" where
  "log ev st = st\<lparr>logged := logged st @ [ev]\<rparr>"


section \<open>Geocoding\<close>

text \<open>
  The provider is a function of the number of queries already sent and of the query
  text, so that it may answer the same query differently at different moments.
\<close>

definition geocode ::
  "(nat \<Rightarrow> string \<Rightarrow> 'c nominatim_reply) \<Rightarrow> string \<Rightarrow> 'c state
     \<Rightarrow> (py_error + 'c geopoint option) \<times> 'c state" where
  "geocode nominatim place st =
     (let key = normalize_place place in
      if key = [] then (Inr None, st)
      else (case cache st key of
              Some v \<Rightarrow> (Inr v, st)
            | None \<Rightarrow>
               (let reply = nominatim (length (lookups st)) place;
                    st1 = st\<lparr>lookups := lookups st @ [place]\<rparr>
                in case reply of
                     RequestFailed \<Rightarrow> (Inl RequestError, st1)
                   | Candidates data \<Rightarrow>
                      (case data of
                         [] \<Rightarrow> (Inr None, st1\<lparr>cache := (cache st1)(key \<mapsto> None)\<rparr>)
                       | it # _ \<Rightarrow>
                          (case item_lat it of
                             None \<Rightarrow> (Inl ItemError, st1)
                           | Some la \<Rightarrow>
                              (case item_lon it of
                                 None \<Rightarrow> (Inl ItemError, st1)
                               | Some lo \<Rightarrow>
                                  (let result = \<lparr>lat = la, lon = lo,
                                         display_name = item_display_name it\<rparr>
                                   in (Inr (Some result),
                                       st1\<lparr>cache := (cache st1)(key \<mapsto> Some result)\<rparr>))))))))"


section \<open>Dates and times\<close>

text \<open>
  \<open>datetime.strptime\<close> on the formats the script uses. In each of them the
  directives are separated by a character no directive can match, so the input
  matches when it splits at that character into as many pieces as there are
  directives and each piece matches its directive entirely. On failure
  \<open>strptime\<close> raises \<open>ValueError\<close>.
\<close>

type_synonym date = "nat \<times> nat \<times> nat"
  \<comment> \<open>year, month, day; compared in that order, as \<open>datetime.date\<close> is\<close>

type_synonym time = "nat \<times> nat \<times> nat \<times> nat"
  \<comment> \<open>hour, minute, second, microsecond; compared in that order\<close>

definition isdigit :: "char \<Rightarrow> bool" where
  "isdigit c = (48 \<le> (of_char c :: nat) \<and> (of_char c :: nat) \<le> 57)"

definition digit_val :: "char \<Rightarrow> nat" where
  "digit_val c = of_char c - 48"

definition int_of :: "string \<Rightarrow> nat" where
  "int_of s = foldl (\<lambda>n c. 10 * n + digit_val c) 0 s"

text \<open>One or two decimal digits whose value lies between \<open>lo\<close> and \<open>hi\<close>.\<close>

definition number_field :: "nat \<Rightarrow> nat \<Rightarrow> string \<Rightarrow> nat option" where
  "number_field lo hi s =
     (if (length s = 1 \<or> length s = 2) \<and> list_all isdigit s
         \<and> lo \<le> int_of s \<and> int_of s \<le> hi
      then Some (int_of s) else None)"

text \<open>
  \<open>%d\<close> is \<open>3[0-1]|[1-2]\d|0[1-9]|[1-9]| [1-9]\<close>, \<open>%m\<close> is \<open>1[0-2]|0[1-9]|[1-9]\<close>,
  \<open>%Y\<close> is four digits, \<open>%H\<close> is \<open>2[0-3]|[0-1]\d|\d\<close>, \<open>%M\<close> is \<open>[0-5]\d|\d\<close>,
  \<open>%S\<close> is \<open>6[0-1]|[0-5]\d|\d\<close>.
\<close>

definition directive_d :: "string \<Rightarrow> nat option" where
  "directive_d s =
     (case s of
        [a, b] \<Rightarrow>
          (if a = CHR '' '' \<and> isdigit b \<and> 1 \<le> digit_val b then Some (digit_val b)
           else number_field 1 31 s)
      | _ \<Rightarrow> number_field 1 31 s)"

definition directive_m :: "string \<Rightarrow> nat option" where
  "directive_m s = number_field 1 12 s"

definition directive_Y :: "string \<Rightarrow> nat option" where
  "directive_Y s = (if length s = 4 \<and> list_all isdigit s then Some (int_of s) else None)"

definition directive_H :: "string \<Rightarrow> nat option" where
  "directive_H s = number_field 0 23 s"

definition directive_M :: "string \<Rightarrow> nat option" where
  "directive_M s = number_field 0 59 s"

definition directive_S :: "string \<Rightarrow> nat option" where
  "directive_S s = number_field 0 61 s"

definition is_leap :: "nat \<Rightarrow> bool" where
  "is_leap y = (y mod 4 = 0 \<and> (y mod 100 \<noteq> 0 \<or> y mod 400 = 0))"

definition days_in_month :: "nat \<Rightarrow> nat \<Rightarrow> nat" where
  "days_in_month y m =
     (if m = 2 then (if is_leap y then 29 else 28)
      else if m = 4 \<or> m = 6 \<or> m = 9 \<or> m = 11 then 30 else 31)"

text \<open>The check of the \<open>datetime\<close> constructor on year, month and day.\<close>

definition valid_date :: "date \<Rightarrow> bool" where
  "valid_date dt =
     (case dt of (y, m, d) \<Rightarrow>
        1 \<le> y \<and> y \<le> 9999 \<and> 1 \<le> m \<and> m \<le> 12 \<and> 1 \<le> d \<and> d \<le> days_in_month y m)"

text \<open>\<open>datetime.strptime(s, "%d/%m/%Y").date()\<close>\<close>

definition strptime_dmY :: "string \<Rightarrow> py_error + date" where
  "strptime_dmY s =
     (case split_on CHR ''/'' s of
        [ds, ms, ys] \<Rightarrow>
          (case (directive_d ds, directive_m ms, directive_Y ys) of
             (Some d, Some m, Some y) \<Rightarrow>
               if valid_date (y, m, d) then Inr (y, m, d) else Inl ValueError
           | _ \<Rightarrow> Inl ValueError)
      | _ \<Rightarrow> Inl ValueError)"

text \<open>\<open>datetime.strptime(s, "%Y-%m-%d").date()\<close>\<close>

definition strptime_Ymd :: "string \<Rightarrow> py_error + date" where
  "strptime_Ymd s =
     (case split_on CHR ''-'' s of
        [ys, ms, ds] \<Rightarrow>
          (case (directive_Y ys, directive_m ms, directive_d ds) of
             (Some y, Some m, Some d) \<Rightarrow>
               if valid_date (y, m, d) then Inr (y, m, d) else Inl ValueError
           | _ \<Rightarrow> Inl ValueError)
      | _ \<Rightarrow> Inl ValueError)"

text \<open>\<open>datetime.strptime(s, "%H:%M")\<close>, of which only hour and minute are read.\<close>

definition strptime_HM :: "string \<Rightarrow> py_error + nat \<times> nat" where
  "strptime_HM s =
     (case split_on CHR '':'' s of
        [hs, ms] \<Rightarrow>
          (case (directive_H hs, directive_M ms) of
             (Some h, Some m) \<Rightarrow> Inr (h, m)
           | _ \<Rightarrow> Inl ValueError)
      | _ \<Rightarrow> Inl ValueError)"

text \<open>
  \<open>datetime.strptime(s, "%H:%M:%S")\<close>: the pattern lets the seconds reach 61, and the
  \<open>datetime\<close> constructor then refuses 60 and 61 with the same \<open>ValueError\<close>.
\<close>

definition strptime_HMS :: "string \<Rightarrow> py_error + nat \<times> nat" where
  "strptime_HMS s =
     (case split_on CHR '':'' s of
        [hs, ms, ss] \<Rightarrow>
          (case (directive_H hs, directive_M ms, directive_S ss) of
             (Some h, Some m, Some sec) \<Rightarrow>
               if sec \<le> 59 then Inr (h, m) else Inl ValueError
           | _ \<Rightarrow> Inl ValueError)
      | _ \<Rightarrow> Inl ValueError)"

definition digit_chr :: "nat \<Rightarrow> char" where
  "digit_chr n = char_of (48 + n)"

definition pad2 :: "nat \<Rightarrow> string" where
  "pad2 n = [digit_chr (n div 10 mod 10), digit_chr (n mod 10)]"

definition pad4 :: "nat \<Rightarrow> string" where
  "pad4 n = [digit_chr (n div 1000 mod 10), digit_chr (n div 100 mod 10),
             digit_chr (n div 10 mod 10), digit_chr (n mod 10)]"

text \<open>\<open>date.isoformat()\<close> and \<open>strftime("%H:%M")\<close>\<close>

definition isoformat :: "date \<Rightarrow> string" where
  "isoformat dt = (case dt of (y, m, d) \<Rightarrow> pad4 y @ ''-'' @ pad2 m @ ''-'' @ pad2 d)"

definition strftime_HM :: "nat \<times> nat \<Rightarrow> string" where
  "strftime_HM hm = (case hm of (h, m) \<Rightarrow> pad2 h @ '':'' @ pad2 m)"

text \<open>
  \<open>s.zfill(2)\<close>: a string of two or more characters is returned as it is; a shorter
  one is filled with zeros on the left, after its sign when it starts with one.
\<close>

definition zfill2 :: "string \<Rightarrow> string" where
  "zfill2 s =
     (if 2 \<le> length s then s
      else (case s of
              [] \<Rightarrow> ''00''
            | c # _ \<Rightarrow> if c = CHR ''+'' \<or> c = CHR ''-'' then [c, CHR ''0''] else [CHR ''0'', c]))"

definition parse_fecha :: "string \<Rightarrow> py_error + string" where
  "parse_fecha fecha_str =
     (case strptime_dmY (strip fecha_str) of
        Inl e \<Rightarrow> Inl e
      | Inr dt \<Rightarrow> Inr (isoformat dt))"

definition parse_hora :: "string \<Rightarrow> string" where
  "parse_hora h =
     (let s = strip h in
      case strptime_HM s of
        Inr hm \<Rightarrow> strftime_HM hm
      | Inl _ \<Rightarrow>
         (case strptime_HMS s of
            Inr hm \<Rightarrow> strftime_HM hm
          | Inl _ \<Rightarrow>
             (let parts = split_on CHR '':'' s in
              if 2 \<le> length parts then zfill2 (parts ! 0) @ '':'' @ zfill2 (parts ! 1)
              else s)))"

text \<open>
  \<open>ahora\<close> is the reading of the clock, \<open>datetime.now(TZ)\<close>, as its date and its time
  of day. The departure time read with \<open>%H:%M\<close> has no seconds.
\<close>

definition viaje_vigente :: "date \<times> time \<Rightarrow> string \<Rightarrow> string option \<Rightarrow> py_error + bool" where
  "viaje_vigente ahora fecha_iso hora_salida_hhmm =
     (let hoy = fst ahora in
      case strptime_Ymd fecha_iso of
        Inl e \<Rightarrow> Inl e
      | Inr fecha \<Rightarrow>
         if fecha > hoy then Inr True
         else if fecha < hoy then Inr False
         else (case hora_salida_hhmm of
                 None \<Rightarrow> Inr True
               | Some h \<Rightarrow>
                  if h = [] then Inr True
                  else (case strptime_HM h of
                          Inr (hh, mm) \<Rightarrow> Inr ((hh, mm, 0, 0) \<ge> snd ahora)
                        | Inl _ \<Rightarrow> Inr True)))"


section \<open>Routes and features\<close>

text \<open>
  The routing provider answers a list of stops with a failure (anything the request
  or the reading of its body raises) or with the list of candidate routes, given by
  their geometries.
\<close>

datatype 'c osrm_reply = OsrmFailed | Routes "'c geometry list"

definition obtener_ruta_osrm_multi ::
  "('c geopoint list \<Rightarrow> 'c osrm_reply) \<Rightarrow> 'c geopoint list \<Rightarrow> py_error + 'c geometry option" where
  "obtener_ruta_osrm_multi osrm stops_geo =
     (case osrm stops_geo of
        OsrmFailed \<Rightarrow> Inl RequestError
      | Routes [] \<Rightarrow> Inr None
      | Routes (r # _) \<Rightarrow> Inr (Some r))"

text \<open>The arrow of the feature name, U+2192, lies outside Latin-1: its UTF-8 bytes.\<close>

definition arrow :: string where
  "arrow = [char_of (226::nat), char_of (134::nat), char_of (146::nat)]"

definition build_feature_route ::
  "('c geopoint list \<Rightarrow> 'c osrm_reply) \<Rightarrow> string \<Rightarrow> string \<Rightarrow> string \<Rightarrow> string
     \<Rightarrow> string list \<Rightarrow> 'c geopoint list \<Rightarrow> 'c state \<Rightarrow> (py_error + 'c feature) \<times> 'c state" where
  "build_feature_route osrm viaje_id fecha hora_salida hora_llegada stops_txt stops_geo st =
     (let (ruta, st1) =
            (case obtener_ruta_osrm_multi osrm stops_geo of
               Inl e \<Rightarrow> (None, log (OsrmFallo viaje_id) st)
             | Inr r \<Rightarrow> (r, st));
          geometry =
            (case ruta of
               Some g \<Rightarrow> g
             | None \<Rightarrow> \<lparr>gtype = ''LineString'',
                        coordinates = map (\<lambda>p. (lon p, lat p)) stops_geo\<rparr>)
      in case stops_txt of
           [] \<Rightarrow> (Inl IndexError, st1)
         | origen_txt # _ \<Rightarrow>
            (let destino_txt = last stops_txt;
                 paradas_txt = butlast (tl stops_txt)
             in (Inr \<lparr>f_geometry = geometry,
                      f_name = origen_txt @ '' '' @ arrow @ '' '' @ destino_txt
                                 @ '' ('' @ hora_salida @ ''-'' @ hora_llegada @ '')'',
                      f_viaje_id = viaje_id,
                      f_fecha = fecha,
                      f_hora_salida = hora_salida,
                      f_hora_llegada = hora_llegada,
                      f_origen = origen_txt,
                      f_destino = destino_txt,
                      f_paradas = join '' | '' paradas_txt,
                      f_num_paradas = length paradas_txt\<rparr>,
                 st1)))"


section \<open>The pipeline\<close>

record row =
  r_fecha :: cell
  r_salida :: cell
  r_llegada :: cell
  r_origen :: cell
  r_destino :: cell
  r_parada1 :: cell
  r_parada2 :: cell
  r_viaje_id :: cell
  r_id :: cell

fun get_text :: "cell \<Rightarrow> string" where
  "get_text Absent = []"
| "get_text NaN = []"
| "get_text (Val v) =
     (let s = strip v in
      if s = [] then []
      else if lower s = ''nan'' then []
      else s)"

text \<open>\<open>str(row.get(col))\<close>, what \<open>parse_fecha\<close> and \<open>parse_hora\<close> are given.\<close>

fun cell_str :: "cell \<Rightarrow> string" where
  "cell_str Absent = ''None''"
| "cell_str NaN = ''nan''"
| "cell_str (Val v) = v"

text \<open>
  Step 5 of the loop body: the stops in order, then the filter, whose condition is
  \<open>stop_ok\<close>.
\<close>

definition stop_ok :: "string \<Rightarrow> bool" where
  "stop_ok s = (s \<noteq> [] \<and> strip s \<noteq> [] \<and> lower (strip s) \<noteq> ''nan'')"

definition stops_of :: "string \<Rightarrow> string \<Rightarrow> string \<Rightarrow> string \<Rightarrow> string list" where
  "stops_of origen p1 p2 destino =
     filter stop_ok
       ([origen] @ (if p1 \<noteq> [] then [p1] else []) @ (if p2 \<noteq> [] then [p2] else [])
          @ [destino])"

text \<open>
  The inner loop over the stops: \<open>todo\<close> are the stops still to geocode, \<open>stops_geo\<close>
  the points found so far. \<open>Inr None\<close> is the \<open>break\<close> with \<open>geocode_ok = False\<close>.
\<close>

fun geocode_stops ::
  "(nat \<Rightarrow> string \<Rightarrow> 'c nominatim_reply) \<Rightarrow> string \<Rightarrow> string list \<Rightarrow> string list
     \<Rightarrow> 'c geopoint list \<Rightarrow> 'c state \<Rightarrow> (py_error + 'c geopoint list option) \<times> 'c state" where
  "geocode_stops nominatim viaje_id stops_txt [] stops_geo st = (Inr (Some stops_geo), st)"
| "geocode_stops nominatim viaje_id stops_txt (s # todo) stops_geo st =
     (case geocode nominatim s st of
        (Inl e, st1) \<Rightarrow> (Inl e, st1)
      | (Inr None, st1) \<Rightarrow> (Inr None, log (NoGeocodifica viaje_id s stops_txt) st1)
      | (Inr (Some g), st1) \<Rightarrow>
          geocode_stops nominatim viaje_id stops_txt todo (stops_geo @ [g]) st1)"

definition descartar :: "log_event \<Rightarrow> 'c state \<Rightarrow> 'c state" where
  "descartar ev st = log ev (st\<lparr>descartados := descartados st + 1\<rparr>)"

text \<open>
  The body of the loop of \<open>main\<close> is written in two parts. The first, \<open>validar\<close>, is
  its steps 1 to 5 and the second reading of \<open>viaje_id\<close>, which touch neither the
  cache nor a provider: the row is discarded with a log line, or an exception
  leaves the loop, or the trip goes on to geocoding with the values below.
\<close>

record trip =
  t_viaje_id :: string
  t_fecha :: string
  t_hora_salida :: string
  t_hora_llegada :: string
  t_stops :: "string list"

datatype verdict = Descartado log_event | Excepcion py_error | Aceptado trip

definition validar :: "date \<times> time \<Rightarrow> row \<Rightarrow> verdict" where
  "validar ahora row =
     (let destino = get_text (r_destino row);
          origen = get_text (r_origen row);
          p1 = get_text (r_parada1 row);
          p2 = get_text (r_parada2 row)
      in
      if destino = [] then Descartado (SinDestino (r_id row))
      else if origen = [] then Descartado (SinOrigen (r_id row) destino)
      else
        (case parse_fecha (cell_str (r_fecha row)) of
           Inl e \<Rightarrow> Excepcion e
         | Inr fecha_iso \<Rightarrow>
            (let hora_salida = parse_hora (cell_str (r_salida row));
                 hora_llegada = parse_hora (cell_str (r_llegada row));
                 viaje_id = get_text (r_viaje_id row)
             in
             if viaje_id = [] then Descartado (SinViajeId (r_id row))
             else
               (case viaje_vigente ahora fecha_iso (Some hora_salida) of
                  Inl e \<Rightarrow> Excepcion e
                | Inr False \<Rightarrow> Descartado (Caducado viaje_id fecha_iso hora_salida)
                | Inr True \<Rightarrow>
                   (let stops_txt = stops_of origen p1 p2 destino;
                        viaje_id = get_text (r_viaje_id row)
                    in
                    if viaje_id = [] then Descartado (SinViajeId (r_id row))
                    else Aceptado \<lparr>t_viaje_id = viaje_id, t_fecha = fecha_iso,
                                    t_hora_salida = hora_salida,
                                    t_hora_llegada = hora_llegada,
                                    t_stops = stops_txt\<rparr>)))))"

text \<open>
  The second part geocodes the stops and builds the feature. The first component of
  the result is the exception that leaves the loop, if any.
\<close>

definition process_row ::
  "(nat \<Rightarrow> string \<Rightarrow> 'c nominatim_reply) \<Rightarrow> ('c geopoint list \<Rightarrow> 'c osrm_reply)
     \<Rightarrow> date \<times> time \<Rightarrow> row \<Rightarrow> 'c state \<Rightarrow> py_error option \<times> 'c state" where
  "process_row nominatim osrm ahora row st =
     (case validar ahora row of
        Descartado ev \<Rightarrow> (None, descartar ev st)
      | Excepcion e \<Rightarrow> (Some e, st)
      | Aceptado t \<Rightarrow>
         (case geocode_stops nominatim (t_viaje_id t) (t_stops t) (t_stops t) [] st of
            (Inl e, st1) \<Rightarrow> (Some e, st1)
          | (Inr None, st1) \<Rightarrow> (None, st1\<lparr>descartados := descartados st1 + 1\<rparr>)
          | (Inr (Some stops_geo), st1) \<Rightarrow>
             (case build_feature_route osrm (t_viaje_id t) (t_fecha t) (t_hora_salida t)
                     (t_hora_llegada t) (t_stops t) stops_geo st1 of
                (Inl e, st2) \<Rightarrow> (Some e, st2)
              | (Inr f, st2) \<Rightarrow> (None, st2\<lparr>features := features st2 @ [f]\<rparr>))))"

text \<open>
  The loop over the rows. \<open>clock i\<close> is the reading of the clock while the row at
  position \<open>i\<close> is processed. An exception ends the loop: the rows after it are not
  looked at.
\<close>

fun main_loop ::
  "(nat \<Rightarrow> string \<Rightarrow> 'c nominatim_reply) \<Rightarrow> ('c geopoint list \<Rightarrow> 'c osrm_reply)
     \<Rightarrow> (nat \<Rightarrow> date \<times> time) \<Rightarrow> nat \<Rightarrow> row list \<Rightarrow> 'c state \<Rightarrow> py_error option \<times> 'c state" where
  "main_loop nominatim osrm clock i [] st = (None, st)"
| "main_loop nominatim osrm clock i (row # rows) st =
     (case process_row nominatim osrm (clock i) row st of
        (Some e, st1) \<Rightarrow> (Some e, st1)
      | (None, st1) \<Rightarrow> main_loop nominatim osrm clock (Suc i) rows st1)"

text \<open>The state \<open>main\<close> enters the loop with, \<open>cache0\<close> being what \<open>load_cache\<close> returned.\<close>

definition initial :: "(string \<rightharpoonup> 'c geopoint option) \<Rightarrow> 'c state" where
  "initial cache0 =
     \<lparr>cache = cache0, lookups = [], logged = [], features = [], descartados = 0\<rparr>"

text \<open>
  Letter casing, stated apart from the code. \<open>case_pair c d\<close>: \<open>c\<close> is a capital
  letter and \<open>d\<close> its small letter, for the letters of the range whose two forms
  correspond one to one: A..Z with a..z, and the accented capitals 192..222 (215 is
  the multiplication sign) with 224..254. The sharp s, the micro sign and the y
  with diaeresis are small letters with no capital of one character in the range.
\<close>

definition case_pair :: "char \<Rightarrow> char \<Rightarrow> bool" where
  "case_pair c d =
     (let m = (of_char c :: nat); n = (of_char d :: nat)
      in ((65 \<le> m \<and> m \<le> 90) \<or> (192 \<le> m \<and> m \<le> 222 \<and> m \<noteq> 215)) \<and> n = m + 32)"

text \<open>
  \<open>str.upper\<close> on one code point of the range: a small letter with a capital in
  \<open>case_pair\<close> becomes that capital, the sharp s (223) becomes the two letters SS,
  and the result is \<open>None\<close> for the micro sign (181) and the y with diaeresis (255),
  whose capitals lie beyond 255. Every other code point is kept.
\<close>

definition upper_chr :: "char \<Rightarrow> string option" where
  "upper_chr c =
     (let n = (of_char c :: nat)
      in if n = 181 \<or> n = 255 then None
         else if n = 223 then Some ''SS''
         else if (97 \<le> n \<and> n \<le> 122) \<or> (224 \<le> n \<and> n \<le> 254 \<and> n \<noteq> 247)
              then Some [char_of (n - 32)]
         else Some [c])"

fun upper :: "string \<Rightarrow> string option" where
  "upper [] = Some []"
| "upper (c # cs) =
     (case upper_chr c of
        None \<Rightarrow> None
      | Some u \<Rightarrow> (case upper cs of None \<Rightarrow> None | Some us \<Rightarrow> Some (u @ us)))"

text \<open>
  Two texts differ only in whitespace and in the casing of letters with one-to-one
  forms: one is reached from the other by exchanging a letter for its other form,
  exchanging a whitespace character for another, adding or removing whitespace at
  either end, and lengthening or shortening a run of whitespace.
\<close>

inductive case_space_variant :: "string \<Rightarrow> string \<Rightarrow> bool" where
  same: "case_space_variant s s"
| sym: "case_space_variant s t \<Longrightarrow> case_space_variant t s"
| trans: "case_space_variant s t \<Longrightarrow> case_space_variant t u \<Longrightarrow> case_space_variant s u"
| recase: "case_pair c d \<Longrightarrow> case_space_variant (xs @ c # ys) (xs @ d # ys)"
| respace: "isspace c \<Longrightarrow> isspace d \<Longrightarrow> case_space_variant (xs @ c # ys) (xs @ d # ys)"
| lead: "isspace c \<Longrightarrow> case_space_variant s (c # s)"
| trail: "isspace c \<Longrightarrow> case_space_variant s (s @ [c])"
| run: "isspace c \<Longrightarrow> isspace d \<Longrightarrow> case_space_variant (xs @ c # ys) (xs @ c # d # ys)"

text \<open>
  The geocoding provider answers every query (no request fails), and the top
  candidate of each non-empty answer has its latitude and longitude.
\<close>

definition provider_answers :: "(nat \<Rightarrow> string \<Rightarrow> 'c nominatim_reply) \<Rightarrow> bool" where
  "provider_answers nominatim =
     (\<forall>n q. nominatim n q \<noteq> RequestFailed
        \<and> (\<forall>it rest. nominatim n q = Candidates (it # rest) \<longrightarrow>
              item_lat it \<noteq> None \<and> item_lon it \<noteq> None))"


section \<open>Example inputs\<close>

definition punto :: "int geopoint" where
  "punto = \<lparr>lat = 40, lon = - 3, display_name = None\<rparr>"

definition nominatim_down :: "nat \<Rightarrow> string \<Rightarrow> int nominatim_reply" where
  "nominatim_down n q = RequestFailed"

definition nominatim_fixed :: "nat \<Rightarrow> string \<Rightarrow> int nominatim_reply" where
  "nominatim_fixed n q =
     Candidates [\<lparr>item_lat = Some 40, item_lon = Some (- 3), item_display_name = None\<rparr>]"

definition nominatim_unknown :: "nat \<Rightarrow> string \<Rightarrow> int nominatim_reply" where
  "nominatim_unknown n q = Candidates []"

definition osrm_down :: "int geopoint list \<Rightarrow> int osrm_reply" where
  "osrm_down gs = OsrmFailed"

definition cache_with_empty_key :: "string \<rightharpoonup> int geopoint option" where
  "cache_with_empty_key = [[] \<mapsto> Some punto]"

definition cache_madrid :: "string \<rightharpoonup> int geopoint option" where
  "cache_madrid = [''madrid'' \<mapsto> Some punto]"

definition clock_feb :: "nat \<Rightarrow> date \<times> time" where
  "clock_feb i = ((2026, 2, 1), (10, 0, 0, 0))"

definition fila :: row where
  "fila = \<lparr>r_fecha = Val ''18/02/2026'', r_salida = Val ''9:5'', r_llegada = Val ''11:00'',
            r_origen = Val ''Madrid'', r_destino = Val ''Barcelona'',
            r_parada1 = NaN, r_parada2 = NaN, r_viaje_id = Val ''T1'', r_id = Val ''7''\<rparr>"

definition fila_fecha_iso :: row where
  "fila_fecha_iso = fila\<lparr>r_fecha := Val ''2026-02-18''\<rparr>"


definition strasse_small :: string where
  "strasse_small = ''stra'' @ [CHR 0xDF] @ ''e''"

definition viaje_t1 :: trip where
  "viaje_t1 = \<lparr>t_viaje_id = ''T1'', t_fecha = ''2026-02-18'', t_hora_salida = ''09:05'',
                t_hora_llegada = ''11:00'', t_stops = [''Madrid'', ''Barcelona'']\<rparr>"

definition fila_parada :: row where
  "fila_parada = fila\<lparr>r_parada1 := Val '' Zaragoza '', r_parada2 := Val ''nan''\<rparr>"

definition viaje_parada :: trip where
  "viaje_parada = viaje_t1\<lparr>t_stops := [''Madrid'', ''Zaragoza'', ''Barcelona'']\<rparr>"

definition fila_sin_destino :: row where
  "fila_sin_destino = fila\<lparr>r_destino := Val '' '', r_fecha := NaN\<rparr>"

definition nominatim_flaky :: "nat \<Rightarrow> string \<Rightarrow> int nominatim_reply" where
  "nominatim_flaky n q = (if n = 0 then nominatim_fixed n q else RequestFailed)"


section \<open>The place normalizer\<close>

lemma isspace_lower_chr: "isspace (lower_chr c) = isspace c"
  by (simp add: isspace_def lower_chr_def Let_def)

lemma split_from_append_cong:
  "(\<And>w. split_from w ys = split_from w zs) \<Longrightarrow> split_from w (xs @ ys) = split_from w (xs @ zs)"
  by (induction xs arbitrary: w) simp_all

lemma split_from_trailing: "isspace c \<Longrightarrow> split_from w (s @ [c]) = split_from w s"
  by (induction s arbitrary: w) simp_all

lemma split_from_leading: "split_from [] (dropWhile isspace s) = split_from [] s"
  by (induction s) simp_all

lemma split_from_rstrip: "split_from w (rev (dropWhile isspace (rev s))) = split_from w s"
proof (induction s arbitrary: w rule: rev_induct)
  case Nil
  show ?case by simp
next
  case (snoc c s)
  show ?case
  proof (cases "isspace c")
    case True
    then show ?thesis using snoc by (simp add: split_from_trailing)
  next
    case False
    then show ?thesis by simp
  qed
qed

lemma split_ws_strip: "split_ws (strip s) = split_ws s"
  by (simp add: split_ws_def strip_def split_from_rstrip split_from_leading)

lemma dropWhile_isspace_lower:
  "dropWhile isspace (map lower_chr s) = map lower_chr (dropWhile isspace s)"
  by (induction s) (simp_all add: isspace_lower_chr)

lemma lower_strip: "lower (strip s) = strip (lower s)"
  by (simp add: lower_def strip_def rev_map dropWhile_isspace_lower)

text \<open>The \<open>strip\<close> of \<open>normalize_place\<close> changes nothing that \<open>split\<close> would keep.\<close>

lemma normalize_place_alt: "normalize_place s = join '' '' (split_ws (lower s))"
  by (simp add: normalize_place_def lower_strip split_ws_strip)

text \<open>\<open>str.lower\<close> sends both letters of a pair to the small one.\<close>

lemma lower_chr_case_pair: "case_pair c d \<Longrightarrow> lower_chr c = d \<and> lower_chr d = d"
proof -
  assume p: "case_pair c d"
  then have n: "(of_char d :: nat) = of_char c + 32"
    and m: "(65 \<le> (of_char c :: nat) \<and> (of_char c :: nat) \<le> 90)
              \<or> (192 \<le> (of_char c :: nat) \<and> (of_char c :: nat) \<le> 222 \<and> (of_char c :: nat) \<noteq> 215)"
    by (simp_all add: case_pair_def Let_def)
  have "char_of (of_char c + 32 :: nat) = char_of (of_char d :: nat)" using n by simp
  then have "lower_chr c = d" using m by (simp add: lower_chr_def Let_def)
  moreover have "lower_chr d = d" using n m by (auto simp add: lower_chr_def Let_def)
  ultimately show ?thesis by simp
qed

lemma split_lower_variant:
  "case_space_variant s t \<Longrightarrow> split_from [] (lower s) = split_from [] (lower t)"
proof (induction rule: case_space_variant.induct)
  case (recase c d xs ys)
  then show ?case using lower_chr_case_pair [of c d] by (simp add: lower_def)
next
  case (respace c d xs ys)
  then show ?case
    unfolding lower_def map_append
    by (intro split_from_append_cong) (simp add: isspace_lower_chr)
next
  case (lead c s)
  then show ?case by (simp add: lower_def isspace_lower_chr)
next
  case (trail c s)
  then show ?case by (simp add: lower_def split_from_trailing isspace_lower_chr)
next
  case (run c d xs ys)
  then show ?case
    unfolding lower_def map_append
    by (intro split_from_append_cong) (simp add: isspace_lower_chr)
qed simp_all

text \<open>
  Claim C9, as stated: two place texts that differ only in letter casing have the
  same key. It fails on a street name written with the sharp s and on the same name
  in capitals, which \<open>str.upper\<close> makes of it: \<open>str.lower\<close> lowers the capitals to
  a double s and leaves the sharp s, so the keys differ.
\<close>

theorem normalize_place_sharp_s_counterexample:
  "upper strasse_small = Some ''STRASSE''
     \<and> normalize_place ''STRASSE'' = ''strasse''
     \<and> normalize_place strasse_small = strasse_small
     \<and> normalize_place strasse_small \<noteq> normalize_place ''STRASSE''"
  by code_simp

text \<open>
  Claim C9, amended. Two place texts of code points up to 255 that differ only in
  whitespace (at the start, at the end, or in the length and the characters of an
  inner run) and in the casing of letters whose capital and small forms correspond
  one to one (A..Z and the accented capitals of the range) have the same cache key.
\<close>

theorem normalize_place_case_space:
  "case_space_variant s t \<Longrightarrow> normalize_place s = normalize_place t"
  by (simp add: normalize_place_alt split_ws_def split_lower_variant)

theorem normalize_place_case_space_witness:
  "case_space_variant ''  Madrid   Centro '' ''madrid centro''
     \<and> normalize_place ''  Madrid   Centro '' = normalize_place ''madrid centro''"
proof -
  have a: "case_space_variant '' Madrid   Centro '' ''  Madrid   Centro ''"
    by (rule lead) (simp add: isspace_def)
  have b: "case_space_variant ''Madrid   Centro '' '' Madrid   Centro ''"
    by (rule lead) (simp add: isspace_def)
  have c: "case_space_variant ''Madrid   Centro'' (''Madrid   Centro'' @ '' '')"
    by (rule trail) (simp add: isspace_def)
  have d: "case_space_variant (''Madrid'' @ CHR '' '' # '' Centro'')
             (''Madrid'' @ CHR '' '' # CHR '' '' # '' Centro'')"
    by (rule run) (simp_all add: isspace_def)
  have e: "case_space_variant (''Madrid'' @ CHR '' '' # ''Centro'')
             (''Madrid'' @ CHR '' '' # CHR '' '' # ''Centro'')"
    by (rule run) (simp_all add: isspace_def)
  have f: "case_space_variant ([] @ CHR ''M'' # ''adrid Centro'') ([] @ CHR ''m'' # ''adrid Centro'')"
    by (rule recase) (simp add: case_pair_def)
  have g: "case_space_variant (''madrid '' @ CHR ''C'' # ''entro'')
             (''madrid '' @ CHR ''c'' # ''entro'')"
    by (rule recase) (simp add: case_pair_def)
  have "case_space_variant ''  Madrid   Centro '' ''Madrid   Centro ''"
    using trans [OF sym [OF a] sym [OF b]] .
  moreover have "case_space_variant ''Madrid   Centro '' ''Madrid   Centro''"
    using sym [OF c] by simp
  moreover have "case_space_variant ''Madrid   Centro'' ''Madrid  Centro''"
    using sym [OF d] by simp
  moreover have "case_space_variant ''Madrid  Centro'' ''Madrid Centro''"
    using sym [OF e] by simp
  moreover have "case_space_variant ''Madrid Centro'' ''madrid Centro''"
    using f by simp
  moreover have "case_space_variant ''madrid Centro'' ''madrid centro''"
    using g by simp
  ultimately have v: "case_space_variant ''  Madrid   Centro '' ''madrid centro''"
    by (blast intro: trans)
  from v normalize_place_case_space [OF v] show ?thesis by simp
qed


section \<open>The geocoder and its cache\<close>

lemma normalize_place_empty: "normalize_place [] = []"
  by (simp add: normalize_place_def strip_def lower_def split_ws_def)

lemma geocode_keeps_entry:
  "cache st k = Some v \<Longrightarrow> cache (snd (geocode nominatim q st)) k = Some v"
  by (cases "k = normalize_place q")
     (auto simp add: geocode_def Let_def split: option.splits nominatim_reply.splits list.splits)

lemma geocode_many_keeps_entry:
  "cache st k = Some v
     \<Longrightarrow> cache (foldl (\<lambda>s q. snd (geocode nominatim q s)) st places) k = Some v"
  by (induction places arbitrary: st) (simp_all add: geocode_keeps_entry)

lemma geocode_hit:
  "normalize_place place \<noteq> [] \<Longrightarrow> cache st (normalize_place place) = Some v
     \<Longrightarrow> geocode nominatim place st = (Inr v, st)"
  by (simp add: geocode_def)

text \<open>
  Claim C8. A place text that is empty, or whose key is empty, makes \<open>geocode\<close> return
  \<open>None\<close> with the state as it was: no query is sent and the cache has no new entry.
\<close>

theorem geocode_empty_key:
  "place = [] \<or> normalize_place place = [] \<Longrightarrow> geocode nominatim place st = (Inr None, st)"
  by (auto simp add: geocode_def normalize_place_empty)

theorem geocode_empty_key_witness:
  "normalize_place ''   '' = []
     \<and> geocode nominatim_fixed ''   '' (initial cache_madrid) = (Inr None, initial cache_madrid)"
proof -
  have h: "normalize_place ''   '' = []" by code_simp
  then have "''   '' = [] \<or> normalize_place ''   '' = []" by simp
  from h geocode_empty_key [OF this] show ?thesis by simp
qed

text \<open>
  Claim C4, as stated: whenever the key of a place text is in the cache, \<open>geocode\<close>
  returns the cached value. It fails for the empty key: \<open>geocode\<close> returns \<open>None\<close>
  before it looks into the cache, whatever the cache holds under that key.
\<close>

theorem geocode_hit_empty_key_counterexample:
  "cache (initial cache_with_empty_key) (normalize_place '' '') = Some (Some punto)
     \<and> fst (geocode nominatim_down '' '' (initial cache_with_empty_key)) = Inr None"
  by code_simp

text \<open>
  Claim C4, amended. For a place text whose key is not empty and is in the cache,
  mapped to a point or to the marker \<open>None\<close>, \<open>geocode\<close> returns the cached value
  and the state is as it was: no query is sent and the cache is unchanged.
\<close>

theorem geocode_cache_hit:
  "normalize_place place \<noteq> [] \<Longrightarrow> cache st (normalize_place place) = Some v
     \<Longrightarrow> geocode nominatim place st = (Inr v, st)
         \<and> lookups (snd (geocode nominatim place st)) = lookups st
         \<and> cache (snd (geocode nominatim place st)) = cache st"
  by (simp add: geocode_def)

theorem geocode_cache_hit_witness:
  "normalize_place '' MADRID '' \<noteq> []
     \<and> cache (initial cache_madrid) (normalize_place '' MADRID '') = Some (Some punto)
     \<and> geocode nominatim_down '' MADRID '' (initial cache_madrid)
         = (Inr (Some punto), initial cache_madrid)"
proof -
  have h1: "normalize_place '' MADRID '' \<noteq> []" by code_simp
  have h2: "cache (initial cache_madrid) (normalize_place '' MADRID '') = Some (Some punto)"
    by code_simp
  from h1 h2 geocode_cache_hit [OF h1 h2] show ?thesis by simp
qed

text \<open>
  Claim C6. On a cache miss that reaches the provider: an empty answer stores the
  marker \<open>None\<close> under the key and returns \<open>None\<close>; an answer whose top candidate has
  its coordinates stores the point made of them under the key and returns it; in
  both cases one query is sent, and any lookup of a text with the same key later in
  the run, after any number of other lookups, returns the stored value and sends
  no query.
\<close>

theorem geocode_miss_stores:
  assumes "normalize_place place \<noteq> []"
    and "cache st (normalize_place place) = None"
    and "nominatim (length (lookups st)) place = Candidates data"
  shows "(data = [] \<longrightarrow>
            geocode nominatim place st =
              (Inr None, st\<lparr>lookups := lookups st @ [place],
                            cache := (cache st)(normalize_place place \<mapsto> None)\<rparr>))
       \<and> (\<forall>it rest la lo.
            data = it # rest \<and> item_lat it = Some la \<and> item_lon it = Some lo \<longrightarrow>
            geocode nominatim place st =
              (Inr (Some \<lparr>lat = la, lon = lo, display_name = item_display_name it\<rparr>),
               st\<lparr>lookups := lookups st @ [place],
                  cache := (cache st)(normalize_place place \<mapsto>
                    Some \<lparr>lat = la, lon = lo, display_name = item_display_name it\<rparr>)\<rparr>))
       \<and> (\<forall>r places place2.
            fst (geocode nominatim place st) = Inr r
              \<and> normalize_place place2 = normalize_place place \<longrightarrow>
            geocode nominatim place2
                (foldl (\<lambda>s q. snd (geocode nominatim q s)) (snd (geocode nominatim place st)) places)
              = (Inr r,
                 foldl (\<lambda>s q. snd (geocode nominatim q s)) (snd (geocode nominatim place st)) places))"
proof (intro conjI allI impI)
  assume "data = []"
  with assms show "geocode nominatim place st =
      (Inr None, st\<lparr>lookups := lookups st @ [place],
                    cache := (cache st)(normalize_place place \<mapsto> None)\<rparr>)"
    by (simp add: geocode_def)
next
  fix it rest la lo
  assume "data = it # rest \<and> item_lat it = Some la \<and> item_lon it = Some lo"
  with assms show "geocode nominatim place st =
      (Inr (Some \<lparr>lat = la, lon = lo, display_name = item_display_name it\<rparr>),
       st\<lparr>lookups := lookups st @ [place],
          cache := (cache st)(normalize_place place \<mapsto>
            Some \<lparr>lat = la, lon = lo, display_name = item_display_name it\<rparr>)\<rparr>)"
    by (simp add: geocode_def Let_def)
next
  fix r places place2
  assume a: "fst (geocode nominatim place st) = Inr r
               \<and> normalize_place place2 = normalize_place place"
  with assms have "cache (snd (geocode nominatim place st)) (normalize_place place) = Some r"
    by (auto simp add: geocode_def Let_def split: list.splits option.splits)
  then have "cache (foldl (\<lambda>s q. snd (geocode nominatim q s)) (snd (geocode nominatim place st)) places)
               (normalize_place place2) = Some r"
    using a by (simp add: geocode_many_keeps_entry)
  with assms(1) a show "geocode nominatim place2
        (foldl (\<lambda>s q. snd (geocode nominatim q s)) (snd (geocode nominatim place st)) places)
      = (Inr r, foldl (\<lambda>s q. snd (geocode nominatim q s)) (snd (geocode nominatim place st)) places)"
    by (simp add: geocode_hit)
qed

theorem geocode_miss_stores_witness:
  "normalize_place ''Madrid'' \<noteq> []
     \<and> cache (initial Map.empty :: int state) (normalize_place ''Madrid'') = None
     \<and> nominatim_fixed (length (lookups (initial Map.empty :: int state))) ''Madrid''
          = Candidates [\<lparr>item_lat = Some 40, item_lon = Some (- 3), item_display_name = None\<rparr>]
     \<and> fst (geocode nominatim_fixed ''Madrid'' (initial Map.empty)) = Inr (Some punto)
     \<and> lookups (snd (geocode nominatim_fixed '' MADRID ''
          (snd (geocode nominatim_fixed ''Madrid'' (initial Map.empty))))) = [''Madrid'']
     \<and> fst (geocode nominatim_unknown ''Madrid'' (initial Map.empty)) = Inr None
     \<and> lookups (snd (geocode nominatim_unknown '' MADRID ''
          (snd (geocode nominatim_unknown ''Madrid'' (initial Map.empty))))) = [''Madrid'']"
proof -
  let ?it = "\<lparr>item_lat = Some (40::int), item_lon = Some (- 3), item_display_name = None\<rparr>"
  let ?st = "initial Map.empty :: int state"
  have h1: "normalize_place ''Madrid'' \<noteq> []" by code_simp
  have h2: "cache ?st (normalize_place ''Madrid'') = None" by (simp add: initial_def)
  have h3: "nominatim_fixed (length (lookups ?st)) ''Madrid'' = Candidates [?it]"
    by (simp add: nominatim_fixed_def)
  have h4: "nominatim_unknown (length (lookups ?st)) ''Madrid'' = Candidates []"
    by (simp add: nominatim_unknown_def)
  have k: "normalize_place '' MADRID '' = normalize_place ''Madrid''" by code_simp
  note t = geocode_miss_stores [where nominatim = nominatim_fixed, OF h1 h2 h3]
  note u = geocode_miss_stores [where nominatim = nominatim_unknown, OF h1 h2 h4]
  from t have t2: "geocode nominatim_fixed ''Madrid'' ?st =
      (Inr (Some punto), ?st\<lparr>lookups := lookups ?st @ [''Madrid''],
          cache := (cache ?st)(normalize_place ''Madrid'' \<mapsto> Some punto)\<rparr>)"
    by (simp add: punto_def)
  from t have t3: "\<And>r. fst (geocode nominatim_fixed ''Madrid'' ?st) = Inr r \<Longrightarrow>
      geocode nominatim_fixed '' MADRID '' (foldl (\<lambda>s q. snd (geocode nominatim_fixed q s))
          (snd (geocode nominatim_fixed ''Madrid'' ?st)) [])
        = (Inr r, foldl (\<lambda>s q. snd (geocode nominatim_fixed q s))
          (snd (geocode nominatim_fixed ''Madrid'' ?st)) [])"
    using k by blast
  from u have u2: "geocode nominatim_unknown ''Madrid'' ?st =
      (Inr None, ?st\<lparr>lookups := lookups ?st @ [''Madrid''],
          cache := (cache ?st)(normalize_place ''Madrid'' \<mapsto> None)\<rparr>)"
    by simp
  from u have u3: "\<And>r. fst (geocode nominatim_unknown ''Madrid'' ?st) = Inr r \<Longrightarrow>
      geocode nominatim_unknown '' MADRID '' (foldl (\<lambda>s q. snd (geocode nominatim_unknown q s))
          (snd (geocode nominatim_unknown ''Madrid'' ?st)) [])
        = (Inr r, foldl (\<lambda>s q. snd (geocode nominatim_unknown q s))
          (snd (geocode nominatim_unknown ''Madrid'' ?st)) [])"
    using k by blast
  have a: "fst (geocode nominatim_fixed ''Madrid'' ?st) = Inr (Some punto)"
    by (simp add: t2)
  have b: "fst (geocode nominatim_unknown ''Madrid'' ?st) = Inr None"
    by (simp add: u2)
  have c: "lookups (snd (geocode nominatim_fixed '' MADRID ''
          (snd (geocode nominatim_fixed ''Madrid'' ?st)))) = [''Madrid'']"
  proof -
    have "lookups (snd (geocode nominatim_fixed ''Madrid'' ?st)) = [''Madrid'']"
      unfolding t2 by (simp add: initial_def)
    with t3 [OF a] show ?thesis by simp
  qed
  have d: "lookups (snd (geocode nominatim_unknown '' MADRID ''
          (snd (geocode nominatim_unknown ''Madrid'' ?st)))) = [''Madrid'']"
  proof -
    have "lookups (snd (geocode nominatim_unknown ''Madrid'' ?st)) = [''Madrid'']"
      unfolding u2 by (simp add: initial_def)
    with u3 [OF b] show ?thesis by simp
  qed
  show ?thesis by (intro conjI) (rule h1 h2 h3 a b c d)+
qed


section \<open>The time parser\<close>

lemma split_on_nonempty: "split_on sep s \<noteq> []"
  by (induction s) (simp_all split: list.splits)

lemma split_on_length: "length (split_on sep s) = Suc (length (filter (\<lambda>c. c = sep) s))"
  by (induction s) (auto simp add: split_on_nonempty split: list.splits)

lemma split_on_two_pieces: "(2 \<le> length (split_on sep s)) = (sep \<in> set s)"
proof -
  have "(filter (\<lambda>c. c = sep) s \<noteq> []) = (sep \<in> set s)"
    by (auto simp add: filter_empty_conv)
  then show ?thesis
    by (cases "filter (\<lambda>c. c = sep) s") (simp_all add: split_on_length)
qed

text \<open>
  Claim C7, as stated: a time string that none of the three formats reads is
  returned unchanged after trimming. It fails at \<open>9:70\<close>: no format reads it (70 is
  no minute), and the fallback splits it at the colon and fills each of the first
  two pieces with zeros, so \<open>09:70\<close> is returned.
\<close>

theorem parse_hora_padded_counterexample:
  "strptime_HM (strip ''9:70'') = Inl ValueError
     \<and> strptime_HMS (strip ''9:70'') = Inl ValueError
     \<and> parse_hora ''9:70'' = ''09:70''
     \<and> parse_hora ''9:70'' \<noteq> strip ''9:70''"
  by code_simp

text \<open>
  Claim C7, amended. A time string that none of the three formats reads is returned
  unchanged after trimming when it contains no colon; when it contains one, what is
  returned is its first two colon-separated pieces, each filled with zeros to two
  characters, joined by a colon.
\<close>

theorem parse_hora_unparseable:
  assumes "strptime_HM (strip h) = Inl e1"
    and "strptime_HMS (strip h) = Inl e2"
  shows "(CHR '':'' \<notin> set (strip h) \<longrightarrow> parse_hora h = strip h)
       \<and> (CHR '':'' \<in> set (strip h) \<longrightarrow>
            parse_hora h = zfill2 (split_on CHR '':'' (strip h) ! 0) @ '':''
                             @ zfill2 (split_on CHR '':'' (strip h) ! 1))"
  using assms by (simp add: parse_hora_def Let_def split_on_two_pieces)

theorem parse_hora_unparseable_witness:
  "strptime_HM (strip '' pronto '') = Inl ValueError
     \<and> strptime_HMS (strip '' pronto '') = Inl ValueError
     \<and> CHR '':'' \<notin> set (strip '' pronto '')
     \<and> parse_hora '' pronto '' = strip '' pronto ''
     \<and> strptime_HM (strip ''7:5:x'') = Inl ValueError
     \<and> strptime_HMS (strip ''7:5:x'') = Inl ValueError
     \<and> CHR '':'' \<in> set (strip ''7:5:x'')
     \<and> parse_hora ''7:5:x'' = zfill2 (split_on CHR '':'' (strip ''7:5:x'') ! 0) @ '':''
                             @ zfill2 (split_on CHR '':'' (strip ''7:5:x'') ! 1)"
proof -
  have a1: "strptime_HM (strip '' pronto '') = Inl ValueError" by code_simp
  have a2: "strptime_HMS (strip '' pronto '') = Inl ValueError" by code_simp
  have a3: "CHR '':'' \<notin> set (strip '' pronto '')" by code_simp
  have b1: "strptime_HM (strip ''7:5:x'') = Inl ValueError" by code_simp
  have b2: "strptime_HMS (strip ''7:5:x'') = Inl ValueError" by code_simp
  have b3: "CHR '':'' \<in> set (strip ''7:5:x'')" by code_simp
  from parse_hora_unparseable [OF a1 a2] a3
  have a4: "parse_hora '' pronto '' = strip '' pronto ''" by blast
  from parse_hora_unparseable [OF b1 b2] b3
  have b4: "parse_hora ''7:5:x'' = zfill2 (split_on CHR '':'' (strip ''7:5:x'') ! 0) @ '':''
                             @ zfill2 (split_on CHR '':'' (strip ''7:5:x'') ! 1)" by blast
  show ?thesis by (intro conjI) (rule a1 a2 a3 a4 b1 b2 b3 b4)+
qed

section \<open>The vigency check\<close>

text \<open>
  Claim C5. A trip dated after today is accepted and a trip dated before today is
  rejected, whatever the time given; a trip dated today whose departure time is
  read by \<open>%H:%M\<close> is rejected exactly when that time is strictly before the time of
  the clock.
\<close>

theorem viaje_vigente_rule:
  assumes "strptime_Ymd fecha_iso = Inr fecha"
  shows "(hoy < fecha \<longrightarrow> viaje_vigente (hoy, ahora_t) fecha_iso hora = Inr True)
       \<and> (fecha < hoy \<longrightarrow> viaje_vigente (hoy, ahora_t) fecha_iso hora = Inr False)
       \<and> (\<forall>h hh mm. fecha = hoy \<and> hora = Some h \<and> strptime_HM h = Inr (hh, mm) \<longrightarrow>
            viaje_vigente (hoy, ahora_t) fecha_iso hora = Inr (\<not> (hh, mm, 0, 0) < ahora_t))"
proof (intro conjI allI impI)
  assume "hoy < fecha"
  with assms show "viaje_vigente (hoy, ahora_t) fecha_iso hora = Inr True"
    by (simp add: viaje_vigente_def)
next
  assume "fecha < hoy"
  with assms show "viaje_vigente (hoy, ahora_t) fecha_iso hora = Inr False"
    by (simp add: viaje_vigente_def)
next
  fix h hh mm
  assume a: "fecha = hoy \<and> hora = Some h \<and> strptime_HM h = Inr (hh, mm)"
  then have "h \<noteq> []" by (auto simp add: strptime_HM_def)
  with assms a show "viaje_vigente (hoy, ahora_t) fecha_iso hora = Inr (\<not> (hh, mm, 0, 0) < ahora_t)"
    by (simp add: viaje_vigente_def not_less)
qed

theorem viaje_vigente_rule_witness:
  "strptime_Ymd ''2026-02-18'' = Inr (2026, 2, 18)
     \<and> ((2026, 2, 17) :: date) < (2026, 2, 18)
     \<and> viaje_vigente ((2026, 2, 17), (23, 0, 0, 0)) ''2026-02-18'' (Some ''01:00'') = Inr True
     \<and> ((2026, 2, 18) :: date) < (2026, 3, 1)
     \<and> viaje_vigente ((2026, 3, 1), (0, 0, 0, 0)) ''2026-02-18'' (Some ''23:59'') = Inr False
     \<and> strptime_HM ''10:30'' = Inr (10, 30)
     \<and> viaje_vigente ((2026, 2, 18), (10, 30, 0, 1)) ''2026-02-18'' (Some ''10:30'') = Inr False
     \<and> viaje_vigente ((2026, 2, 18), (10, 30, 0, 0)) ''2026-02-18'' (Some ''10:30'') = Inr True"
proof -
  have p: "strptime_Ymd ''2026-02-18'' = Inr (2026, 2, 18)" by code_simp
  have a: "((2026, 2, 17) :: date) < (2026, 2, 18)" by simp
  have b: "((2026, 2, 18) :: date) < (2026, 3, 1)" by simp
  have c: "strptime_HM ''10:30'' = Inr (10, 30)" by code_simp
  have d: "((10, 30, 0, 0) :: time) < (10, 30, 0, 1)" by simp
  have e: "\<not> ((10, 30, 0, 0) :: time) < (10, 30, 0, 0)" by simp
  from viaje_vigente_rule [OF p, of "(2026, 2, 17)" "(23, 0, 0, 0)" "Some ''01:00''"] a
  have r1: "viaje_vigente ((2026, 2, 17), (23, 0, 0, 0)) ''2026-02-18'' (Some ''01:00'') = Inr True"
    by blast
  from viaje_vigente_rule [OF p, of "(2026, 3, 1)" "(0, 0, 0, 0)" "Some ''23:59''"] b
  have r2: "viaje_vigente ((2026, 3, 1), (0, 0, 0, 0)) ''2026-02-18'' (Some ''23:59'') = Inr False"
    by blast
  from viaje_vigente_rule [OF p, of "(2026, 2, 18)" "(10, 30, 0, 1)" "Some ''10:30''"] c d
  have r3: "viaje_vigente ((2026, 2, 18), (10, 30, 0, 1)) ''2026-02-18'' (Some ''10:30'') = Inr False"
    by simp
  from viaje_vigente_rule [OF p, of "(2026, 2, 18)" "(10, 30, 0, 0)" "Some ''10:30''"] c e
  have r4: "viaje_vigente ((2026, 2, 18), (10, 30, 0, 0)) ''2026-02-18'' (Some ''10:30'') = Inr True"
    by simp
  show ?thesis by (intro conjI) (rule p a b c r1 r2 r3 r4)+
qed

section \<open>Dates written and read back\<close>

lemma of_char_digit_chr: "k < 10 \<Longrightarrow> (of_char (digit_chr k) :: nat) = 48 + k"
  by (simp add: digit_chr_def)

lemma isdigit_digit_chr: "k < 10 \<Longrightarrow> isdigit (digit_chr k)"
  by (simp add: isdigit_def of_char_digit_chr)

lemma digit_val_digit_chr: "k < 10 \<Longrightarrow> digit_val (digit_chr k) = k"
  by (simp add: digit_val_def of_char_digit_chr)

lemma digit_chr_not_sep:
  assumes "k < 10"
  shows "digit_chr k \<noteq> CHR ''-''" and "CHR ''-'' \<noteq> digit_chr k"
    and "digit_chr k \<noteq> CHR '' ''" and "CHR '' '' \<noteq> digit_chr k"
proof -
  have a: "digit_chr k \<noteq> CHR ''-''"
  proof
    assume "digit_chr k = CHR ''-''"
    then have "(of_char (digit_chr k) :: nat) = 45" by simp
    then show False using assms by (simp add: of_char_digit_chr)
  qed
  have b: "digit_chr k \<noteq> CHR '' ''"
  proof
    assume "digit_chr k = CHR '' ''"
    then have "(of_char (digit_chr k) :: nat) = 32" by simp
    then show False using assms by (simp add: of_char_digit_chr)
  qed
  show "digit_chr k \<noteq> CHR ''-''" and "CHR ''-'' \<noteq> digit_chr k"
    and "digit_chr k \<noteq> CHR '' ''" and "CHR '' '' \<noteq> digit_chr k"
    using a b by auto
qed

lemma split_on_no_sep: "sep \<notin> set a \<Longrightarrow> split_on sep a = [a]"
  by (induction a) auto

lemma split_on_append: "sep \<notin> set a \<Longrightarrow> split_on sep (a @ sep # b) = a # split_on sep b"
  by (induction a) auto

lemma int_of_pad2: "n < 100 \<Longrightarrow> int_of (pad2 n) = n"
  by (simp add: int_of_def pad2_def digit_val_digit_chr)

lemma four_digits:
  "(n::nat) = 10 * q1 + d0 \<Longrightarrow> q1 = 10 * q2 + d1 \<Longrightarrow> q2 = 10 * q3 + d2
     \<Longrightarrow> 10 * (10 * (10 * q3 + d2) + d1) + d0 = n"
  by simp

lemma int_of_pad4: "n < 10000 \<Longrightarrow> int_of (pad4 n) = n"
proof -
  assume n: "n < 10000"
  have h: "n div 100 = n div 10 div 10" "n div 1000 = n div 10 div 10 div 10"
    using div_mult2_eq [of n 10 10] div_mult2_eq [of n 100 10] div_mult2_eq [of n 10 10]
    by simp_all
  have q3: "n div 1000 < 10" using n by simp
  have e0: "n = 10 * (n div 10) + n mod 10" by simp
  have e1: "n div 10 = 10 * (n div 100) + n div 10 mod 10" unfolding h by simp
  have e2: "n div 100 = 10 * (n div 1000) + n div 100 mod 10" unfolding h by simp
  have "10 * (10 * (10 * (n div 1000) + n div 100 mod 10) + n div 10 mod 10) + n mod 10 = n"
    by (rule four_digits [OF e0 e1 e2])
  then show ?thesis using q3
    by (simp add: int_of_def pad4_def digit_val_digit_chr)
qed

lemma number_field_pad2: "lo \<le> n \<Longrightarrow> n \<le> hi \<Longrightarrow> n < 100 \<Longrightarrow> number_field lo hi (pad2 n) = Some n"
  by (simp add: number_field_def int_of_pad2) (simp add: pad2_def isdigit_digit_chr)

lemma directive_d_pad2: "1 \<le> n \<Longrightarrow> n \<le> 31 \<Longrightarrow> directive_d (pad2 n) = Some n"
proof -
  assume n: "1 \<le> n" "n \<le> 31"
  then have "number_field 1 31 (pad2 n) = Some n" by (simp add: number_field_pad2)
  moreover have "digit_chr (n div 10 mod 10) \<noteq> CHR '' ''" by (simp add: digit_chr_not_sep)
  ultimately show ?thesis by (simp add: directive_d_def) (simp add: pad2_def)
qed

lemma directive_Y_pad4: "n < 10000 \<Longrightarrow> directive_Y (pad4 n) = Some n"
  by (simp add: directive_Y_def int_of_pad4) (simp add: pad4_def isdigit_digit_chr)

lemma days_in_month_le: "days_in_month y m \<le> 31"
  by (simp add: days_in_month_def)

text \<open>What \<open>isoformat\<close> writes, \<open>strptime\<close> with \<open>%Y-%m-%d\<close> reads back.\<close>

lemma strptime_isoformat: "valid_date dt \<Longrightarrow> strptime_Ymd (isoformat dt) = Inr dt"
proof -
  assume v: "valid_date dt"
  obtain y m d where dt: "dt = (y, m, d)" by (cases dt) auto
  from v dt have b: "1 \<le> y" "y \<le> 9999" "1 \<le> m" "m \<le> 12" "1 \<le> d" "d \<le> days_in_month y m"
    by (simp_all add: valid_date_def)
  from b have d31: "d \<le> 31" using days_in_month_le [of y m] by simp
  have s4: "CHR ''-'' \<notin> set (pad4 y)" by (simp add: pad4_def digit_chr_not_sep)
  have s2: "\<And>n. CHR ''-'' \<notin> set (pad2 n)" by (simp add: pad2_def digit_chr_not_sep)
  have "split_on CHR ''-'' (isoformat dt) = [pad4 y, pad2 m, pad2 d]"
    using s4 s2 by (simp add: dt isoformat_def split_on_append split_on_no_sep)
  moreover have "directive_Y (pad4 y) = Some y" using b by (simp add: directive_Y_pad4)
  moreover have "directive_m (pad2 m) = Some m"
    using b by (simp add: directive_m_def number_field_pad2)
  moreover have "directive_d (pad2 d) = Some d" using b d31 by (simp add: directive_d_pad2)
  ultimately show ?thesis using v by (simp add: strptime_Ymd_def dt)
qed

lemma strptime_dmY_valid: "strptime_dmY s = Inr dt \<Longrightarrow> valid_date dt"
  by (auto simp add: strptime_dmY_def split: list.splits option.splits if_splits)

lemma parse_fecha_isoformat:
  "parse_fecha s = Inr fi \<Longrightarrow> \<exists>dt. valid_date dt \<and> fi = isoformat dt \<and> strptime_Ymd fi = Inr dt"
  by (auto simp add: parse_fecha_def strptime_isoformat split: sum.splits dest: strptime_dmY_valid)

text \<open>So \<open>viaje_vigente\<close> never raises on a date that \<open>parse_fecha\<close> produced.\<close>

lemma viaje_vigente_no_raise:
  "parse_fecha s = Inr fi \<Longrightarrow> \<exists>b. viaje_vigente ahora fi hora = Inr b"
proof -
  assume "parse_fecha s = Inr fi"
  then obtain dt where "strptime_Ymd fi = Inr dt" using parse_fecha_isoformat by blast
  then show ?thesis
    by (auto simp add: viaje_vigente_def Let_def split: option.splits sum.splits prod.splits)
qed


section \<open>The stops of a validated row\<close>

lemma dropWhile_rev_stable:
  assumes "a \<noteq> [] \<Longrightarrow> \<not> P (hd a)"
  shows "dropWhile P (rev (dropWhile P (rev a))) = rev (dropWhile P (rev a))"
proof (cases "dropWhile P (rev a) = []")
  case True
  then show ?thesis by (simp only: rev.simps dropWhile.simps)
next
  case False
  define b where "b = dropWhile P (rev a)"
  have "rev a = takeWhile P (rev a) @ b" by (simp add: b_def)
  then have "a = rev b @ rev (takeWhile P (rev a))"
    by (metis rev_append rev_rev_ident)
  moreover have "rev b \<noteq> []" using False by (simp add: b_def)
  ultimately have "hd a = hd (rev b)" and "a \<noteq> []" by (metis hd_append2, auto)
  with assms have "\<not> P (hd (rev b))" by simp
  with \<open>rev b \<noteq> []\<close> have "dropWhile P (rev b) = rev b"
    by (cases "rev b") simp_all
  then show ?thesis by (simp add: b_def)
qed

lemma strip_strip: "strip (strip s) = strip s"
proof -
  have "dropWhile isspace s \<noteq> [] \<Longrightarrow> \<not> isspace (hd (dropWhile isspace s))"
    by (rule hd_dropWhile)
  then have "dropWhile isspace (rev (dropWhile isspace (rev (dropWhile isspace s))))
               = rev (dropWhile isspace (rev (dropWhile isspace s)))"
    by (rule dropWhile_rev_stable)
  then show ?thesis by (simp add: strip_def)
qed

lemma get_text_stop_ok: "get_text c \<noteq> [] \<Longrightarrow> stop_ok (get_text c)"
  by (cases c) (auto simp add: stop_ok_def Let_def strip_strip split: if_splits)

lemma stops_of_get_text:
  assumes "get_text co \<noteq> []" and "get_text cd \<noteq> []"
  shows "stops_of (get_text co) (get_text c1) (get_text c2) (get_text cd) =
           get_text co # (if get_text c1 \<noteq> [] then [get_text c1] else [])
             @ (if get_text c2 \<noteq> [] then [get_text c2] else []) @ [get_text cd]"
  using assms get_text_stop_ok [of co] get_text_stop_ok [of cd]
    get_text_stop_ok [of c1] get_text_stop_ok [of c2]
  by (simp add: stops_of_def stop_ok_def)

lemma validar_Aceptado:
  assumes "validar ahora row = Aceptado t"
  shows "get_text (r_destino row) \<noteq> []" and "get_text (r_origen row) \<noteq> []"
    and "t_viaje_id t = get_text (r_viaje_id row)"
    and "t_hora_salida t = parse_hora (cell_str (r_salida row))"
    and "t_hora_llegada t = parse_hora (cell_str (r_llegada row))"
    and "parse_fecha (cell_str (r_fecha row)) = Inr (t_fecha t)"
    and "t_stops t = stops_of (get_text (r_origen row)) (get_text (r_parada1 row))
                       (get_text (r_parada2 row)) (get_text (r_destino row))"
  using assms
  by (auto simp add: validar_def Let_def split: if_splits sum.splits bool.splits)

lemma strptime_dmY_error: "strptime_dmY s = Inl e \<Longrightarrow> e = ValueError"
  by (auto simp add: strptime_dmY_def split: list.splits option.splits if_splits)

lemma parse_fecha_error: "parse_fecha s = Inl e \<Longrightarrow> e = ValueError"
  by (auto simp add: parse_fecha_def split: sum.splits dest: strptime_dmY_error)

lemma validar_Excepcion:
  assumes "validar ahora row = Excepcion e"
  shows "get_text (r_destino row) \<noteq> [] \<and> get_text (r_origen row) \<noteq> []
           \<and> parse_fecha (cell_str (r_fecha row)) = Inl e"
proof (cases "parse_fecha (cell_str (r_fecha row))")
  case (Inl e')
  with assms show ?thesis
    by (auto simp add: validar_def Let_def split: if_splits)
next
  case (Inr fi)
  obtain b where "viaje_vigente ahora fi (Some (parse_hora (cell_str (r_salida row)))) = Inr b"
    using viaje_vigente_no_raise [OF Inr] by blast
  with assms Inr show ?thesis
    by (auto simp add: validar_def Let_def split: if_splits bool.splits)
qed

lemma validar_bad_date:
  "get_text (r_destino row) \<noteq> [] \<Longrightarrow> get_text (r_origen row) \<noteq> []
     \<Longrightarrow> parse_fecha (cell_str (r_fecha row)) = Inl e \<Longrightarrow> validar ahora row = Excepcion e"
  by (simp add: validar_def)

lemma validar_stops:
  assumes "validar ahora row = Aceptado t"
  shows "t_stops t = get_text (r_origen row)
           # (if get_text (r_parada1 row) \<noteq> [] then [get_text (r_parada1 row)] else [])
           @ (if get_text (r_parada2 row) \<noteq> [] then [get_text (r_parada2 row)] else [])
           @ [get_text (r_destino row)]"
  using validar_Aceptado [OF assms] by (simp add: stops_of_get_text)


section \<open>The inner loop and the feature\<close>

lemma geocode_frame:
  "features (snd (geocode nominatim q st)) = features st"
  "descartados (snd (geocode nominatim q st)) = descartados st"
  by (simp_all add: geocode_def Let_def split: option.splits nominatim_reply.splits list.splits)

lemma geocode_result_cached:
  "geocode nominatim q st = (Inr (Some g), st1) \<Longrightarrow> cache st1 (normalize_place q) = Some (Some g)"
  by (auto simp add: geocode_def Let_def
      split: if_splits option.splits nominatim_reply.splits list.splits)

lemma geocode_stops_frame:
  "features (snd (geocode_stops nominatim vid all todo acc st)) = features st
     \<and> descartados (snd (geocode_stops nominatim vid all todo acc st)) = descartados st"
proof (induction todo arbitrary: acc st)
  case Nil
  show ?case by simp
next
  case (Cons s todo)
  obtain r st1 where g: "geocode nominatim s st = (r, st1)" by (cases "geocode nominatim s st")
  have f: "features st1 = features st" "descartados st1 = descartados st"
    using geocode_frame [of nominatim s st] g by simp_all
  show ?case
  proof (cases r)
    case (Inl e)
    then show ?thesis using g f by simp
  next
    case (Inr v)
    show ?thesis
    proof (cases v)
      case None
      then show ?thesis using g f Inr by (simp add: log_def)
    next
      case (Some p)
      then show ?thesis using g f Inr Cons.IH [of "acc @ [p]" st1] by simp
    qed
  qed
qed

lemma geocode_stops_keeps_entry:
  "cache st k = Some v \<Longrightarrow> cache (snd (geocode_stops nominatim vid all todo acc st)) k = Some v"
proof (induction todo arbitrary: acc st)
  case Nil
  then show ?case by simp
next
  case (Cons s todo)
  obtain r st1 where g: "geocode nominatim s st = (r, st1)" by (cases "geocode nominatim s st")
  have k: "cache st1 k = Some v"
    using geocode_keeps_entry [OF Cons.prems, of nominatim s] g by simp
  show ?case
  proof (cases r)
    case (Inl e)
    then show ?thesis using g k by simp
  next
    case (Inr w)
    show ?thesis
    proof (cases w)
      case None
      then show ?thesis using g k Inr by (simp add: log_def)
    next
      case (Some p)
      then show ?thesis using g Inr Cons.IH [OF k, of "acc @ [p]"] by simp
    qed
  qed
qed

text \<open>
  When the inner loop ends without \<open>break\<close>, it has added one point for each stop, in
  the order of the stops, and each point is what the cache then holds for its stop.
\<close>

lemma geocode_stops_points:
  "geocode_stops nominatim vid all todo acc st = (Inr (Some gs), st1)
     \<Longrightarrow> \<exists>new. gs = acc @ new \<and> length new = length todo
               \<and> (\<forall>i < length todo. cache st1 (normalize_place (todo ! i)) = Some (Some (new ! i)))"
proof (induction todo arbitrary: acc st)
  case Nil
  then show ?case by simp
next
  case (Cons s todo)
  obtain r st0 where g: "geocode nominatim s st = (r, st0)" by (cases "geocode nominatim s st")
  from Cons.prems g obtain p where r: "r = Inr (Some p)"
    and rest: "geocode_stops nominatim vid all todo (acc @ [p]) st0 = (Inr (Some gs), st1)"
    by (cases r; cases "projr r") (auto simp add: log_def split: sum.splits option.splits)
  from Cons.IH [OF rest] obtain new where n: "gs = (acc @ [p]) @ new" "length new = length todo"
    "\<forall>i < length todo. cache st1 (normalize_place (todo ! i)) = Some (Some (new ! i))"
    by blast
  have "cache st0 (normalize_place s) = Some (Some p)"
    using geocode_result_cached g r by blast
  then have c: "cache st1 (normalize_place s) = Some (Some p)"
    using geocode_stops_keeps_entry [of st0 "normalize_place s" "Some p" nominatim vid all todo "acc @ [p]"]
      rest by simp
  have "\<forall>i < length (s # todo). cache st1 (normalize_place ((s # todo) ! i)) = Some (Some ((p # new) ! i))"
  proof (intro allI impI)
    fix i assume "i < length (s # todo)"
    then show "cache st1 (normalize_place ((s # todo) ! i)) = Some (Some ((p # new) ! i))"
      using c n(3) by (cases i) simp_all
  qed
  with n show ?case by (intro exI [of _ "p # new"]) simp
qed

lemma build_feature_route_frame:
  "features (snd (build_feature_route osrm vid fecha hs hl stops gs st)) = features st
     \<and> descartados (snd (build_feature_route osrm vid fecha hs hl stops gs st)) = descartados st"
  by (simp add: build_feature_route_def obtener_ruta_osrm_multi_def log_def Let_def
      split: osrm_reply.splits list.splits)

lemma build_feature_route_feature:
  assumes "stops \<noteq> []"
  shows "\<exists>f st2. build_feature_route osrm vid fecha hs hl stops gs st = (Inr f, st2)
           \<and> f_num_paradas f = length stops - 2
           \<and> f_origen f = hd stops \<and> f_destino f = last stops
           \<and> f_hora_salida f = hs \<and> f_hora_llegada f = hl
           \<and> ((osrm gs = OsrmFailed \<or> osrm gs = Routes []) \<longrightarrow>
                f_geometry f = \<lparr>gtype = ''LineString'',
                                coordinates = map (\<lambda>p. (lon p, lat p)) gs\<rparr>)"
  using assms
  by (cases stops)
     (auto simp add: build_feature_route_def obtener_ruta_osrm_multi_def Let_def
        split: osrm_reply.splits list.splits)

lemma geocode_no_raise:
  assumes "provider_answers nominatim"
  shows "\<exists>v. fst (geocode nominatim q st) = Inr v"
proof (cases "nominatim (length (lookups st)) q")
  case RequestFailed
  with assms show ?thesis unfolding provider_answers_def by blast
next
  case (Candidates data)
  show ?thesis
  proof (cases data)
    case Nil
    with Candidates show ?thesis
      by (simp add: geocode_def Let_def split: option.splits)
  next
    case (Cons it rest)
    with Candidates assms obtain la lo where "item_lat it = Some la" "item_lon it = Some lo"
      unfolding provider_answers_def by blast
    with Candidates Cons show ?thesis
      by (simp add: geocode_def Let_def split: option.splits)
  qed
qed

lemma geocode_stops_no_raise:
  "provider_answers nominatim
     \<Longrightarrow> \<exists>v. fst (geocode_stops nominatim vid all todo acc st) = Inr v"
proof (induction todo arbitrary: acc st)
  case Nil
  show ?case by simp
next
  case (Cons s todo)
  obtain r st1 where g: "geocode nominatim s st = (r, st1)" by (cases "geocode nominatim s st")
  from geocode_no_raise [OF Cons.prems, of s st] g obtain v where r: "r = Inr v" by auto
  show ?case
  proof (cases v)
    case None
    then show ?thesis using g r by simp
  next
    case (Some p)
    then show ?thesis using g r Cons.IH [OF Cons.prems, of "acc @ [p]" st1] by simp
  qed
qed

lemma geocode_stops_append:
  "geocode_stops nominatim vid all (pre @ rest) acc st =
     (case geocode_stops nominatim vid all pre acc st of
        (Inr (Some gs), st0) \<Rightarrow> geocode_stops nominatim vid all rest gs st0
      | other \<Rightarrow> other)"
proof (induction pre arbitrary: acc st)
  case Nil
  show ?case by simp
next
  case (Cons s pre)
  show ?case
    by (cases "geocode nominatim s st")
       (simp add: Cons.IH split: sum.splits option.splits)
qed

text \<open>What the loop body does with a trip whose stops all geocode.\<close>

lemma process_row_accepted:
  assumes "validar ahora row = Aceptado t"
    and "geocode_stops nominatim (t_viaje_id t) (t_stops t) (t_stops t) [] st = (Inr (Some gs), st1)"
  shows "\<exists>f st2. process_row nominatim osrm ahora row st = (None, st2)
           \<and> features st2 = features st @ [f]
           \<and> descartados st2 = descartados st
           \<and> length gs = length (t_stops t)
           \<and> f_num_paradas f = length (t_stops t) - 2
           \<and> f_origen f = get_text (r_origen row)
           \<and> f_destino f = get_text (r_destino row)
           \<and> ((osrm gs = OsrmFailed \<or> osrm gs = Routes []) \<longrightarrow>
                f_geometry f = \<lparr>gtype = ''LineString'',
                                coordinates = map (\<lambda>p. (lon p, lat p)) gs\<rparr>)"
proof -
  have stops: "t_stops t \<noteq> []" "hd (t_stops t) = get_text (r_origen row)"
    "last (t_stops t) = get_text (r_destino row)"
    using validar_stops [OF assms(1)] by simp_all
  from build_feature_route_feature [OF stops(1), of osrm "t_viaje_id t" "t_fecha t"
      "t_hora_salida t" "t_hora_llegada t" gs st1]
  obtain f st2 where b: "build_feature_route osrm (t_viaje_id t) (t_fecha t) (t_hora_salida t)
        (t_hora_llegada t) (t_stops t) gs st1 = (Inr f, st2)"
    and p: "f_num_paradas f = length (t_stops t) - 2" "f_origen f = hd (t_stops t)"
      "f_destino f = last (t_stops t)"
      "(osrm gs = OsrmFailed \<or> osrm gs = Routes []) \<longrightarrow>
         f_geometry f = \<lparr>gtype = ''LineString'', coordinates = map (\<lambda>p. (lon p, lat p)) gs\<rparr>"
    by blast
  have f1: "features st1 = features st" "descartados st1 = descartados st"
    using geocode_stops_frame [of nominatim "t_viaje_id t" "t_stops t" "t_stops t" "[]" st] assms(2)
    by simp_all
  have f2: "features st2 = features st1" "descartados st2 = descartados st1"
    using build_feature_route_frame [of osrm "t_viaje_id t" "t_fecha t" "t_hora_salida t"
        "t_hora_llegada t" "t_stops t" gs st1] b
    by simp_all
  have len: "length gs = length (t_stops t)"
    using geocode_stops_points [OF assms(2)] by auto
  have "process_row nominatim osrm ahora row st = (None, st2\<lparr>features := features st2 @ [f]\<rparr>)"
    using assms b by (simp add: process_row_def)
  with f1 f2 p stops len show ?thesis by simp
qed


section \<open>Features of accepted trips\<close>

text \<open>
  Claim C3. For an accepted trip whose stops all geocode, when the routing request
  fails or returns no route, the loop body raises nothing and emits one feature
  whose geometry is a LineString with the (lon, lat) pairs of the geocoded stops
  in stop order: one point for each stop, each the point the cache holds for it.
\<close>

theorem fallback_geometry:
  assumes "validar ahora row = Aceptado t"
    and "geocode_stops nominatim (t_viaje_id t) (t_stops t) (t_stops t) [] st = (Inr (Some gs), st1)"
    and "osrm gs = OsrmFailed \<or> osrm gs = Routes []"
  shows "\<exists>f st2. process_row nominatim osrm ahora row st = (None, st2)
           \<and> features st2 = features st @ [f]
           \<and> f_geometry f = \<lparr>gtype = ''LineString'',
                               coordinates = map (\<lambda>p. (lon p, lat p)) gs\<rparr>
           \<and> length gs = length (t_stops t)
           \<and> (\<forall>i < length (t_stops t).
                 cache st1 (normalize_place (t_stops t ! i)) = Some (Some (gs ! i)))"
proof -
  from process_row_accepted [OF assms(1) assms(2), of osrm] assms(3)
  obtain f st2 where "process_row nominatim osrm ahora row st = (None, st2)"
    "features st2 = features st @ [f]"
    "f_geometry f = \<lparr>gtype = ''LineString'', coordinates = map (\<lambda>p. (lon p, lat p)) gs\<rparr>"
    "length gs = length (t_stops t)"
    by blast
  moreover have "\<forall>i < length (t_stops t).
      cache st1 (normalize_place (t_stops t ! i)) = Some (Some (gs ! i))"
    using geocode_stops_points [OF assms(2)] by auto
  ultimately show ?thesis by blast
qed

lemma process_row_features:
  "features (snd (process_row nominatim osrm ahora row st)) = features st
     \<or> (\<exists>f. features (snd (process_row nominatim osrm ahora row st)) = features st @ [f]
            \<and> f_num_paradas f \<le> 2)"
proof (cases "validar ahora row")
  case (Descartado ev)
  then show ?thesis by (simp add: process_row_def descartar_def log_def)
next
  case (Excepcion e)
  then show ?thesis by (simp add: process_row_def)
next
  case (Aceptado t)
  obtain r st1 where g: "geocode_stops nominatim (t_viaje_id t) (t_stops t) (t_stops t) [] st = (r, st1)"
    by (cases "geocode_stops nominatim (t_viaje_id t) (t_stops t) (t_stops t) [] st")
  have fr: "features st1 = features st"
    using geocode_stops_frame [of nominatim "t_viaje_id t" "t_stops t" "t_stops t" "[]" st] g by simp
  show ?thesis
  proof (cases r)
    case (Inl e)
    then show ?thesis using Aceptado g fr by (simp add: process_row_def)
  next
    case (Inr v)
    show ?thesis
    proof (cases v)
      case None
      then show ?thesis using Aceptado g fr Inr by (simp add: process_row_def)
    next
      case (Some gs)
      have "length (t_stops t) \<le> 4" using validar_stops [OF Aceptado] by simp
      moreover from process_row_accepted [OF Aceptado, of nominatim st gs st1 osrm] g Inr Some
      obtain f st2 where "process_row nominatim osrm ahora row st = (None, st2)"
        "features st2 = features st @ [f]" "f_num_paradas f = length (t_stops t) - 2"
        by blast
      ultimately show ?thesis by auto
    qed
  qed
qed

lemma main_loop_features:
  "f \<in> set (features (snd (main_loop nominatim osrm clock i rows st)))
     \<Longrightarrow> f \<in> set (features st) \<or> f_num_paradas f \<le> 2"
proof (induction rows arbitrary: i st)
  case Nil
  then show ?case by simp
next
  case (Cons row rows)
  obtain r st1 where p: "process_row nominatim osrm (clock i) row st = (r, st1)"
    by (cases "process_row nominatim osrm (clock i) row st")
  have st1: "features st1 = features st \<or> (\<exists>g. features st1 = features st @ [g] \<and> f_num_paradas g \<le> 2)"
    using process_row_features [of nominatim osrm "clock i" row st] p by simp
  have "f \<in> set (features st1) \<or> f_num_paradas f \<le> 2"
  proof (cases r)
    case None
    then show ?thesis using Cons.prems p Cons.IH [of "Suc i" st1] by simp
  next
    case (Some e)
    then show ?thesis using Cons.prems p by simp
  qed
  with st1 show ?case by auto
qed

text \<open>
  Claim C10. For a row that passes validation the stop list is the origin, then the
  intermediate stops that are present, then the destination: the filter removes
  nothing, the list has between 2 and 4 entries. So a feature emitted for the row
  has \<open>num_paradas\<close> at most 2 and its fallback geometry has at least 2 coordinate
  pairs, and every feature a run adds has \<open>num_paradas\<close> at most 2.
\<close>

theorem stops_shape:
  assumes "validar ahora row = Aceptado t"
  shows "t_stops t = get_text (r_origen row)
           # (if get_text (r_parada1 row) \<noteq> [] then [get_text (r_parada1 row)] else [])
           @ (if get_text (r_parada2 row) \<noteq> [] then [get_text (r_parada2 row)] else [])
           @ [get_text (r_destino row)]
       \<and> hd (t_stops t) = get_text (r_origen row) \<and> get_text (r_origen row) \<noteq> []
       \<and> last (t_stops t) = get_text (r_destino row) \<and> get_text (r_destino row) \<noteq> []
       \<and> 2 \<le> length (t_stops t) \<and> length (t_stops t) \<le> 4
       \<and> (\<forall>(nominatim :: nat \<Rightarrow> string \<Rightarrow> 'c nominatim_reply) osrm st gs st1.
            geocode_stops nominatim (t_viaje_id t) (t_stops t) (t_stops t) [] st
              = (Inr (Some gs), st1) \<longrightarrow>
            (\<exists>f st2. process_row nominatim osrm ahora row st = (None, st2)
               \<and> features st2 = features st @ [f]
               \<and> f_num_paradas f = length (t_stops t) - 2 \<and> f_num_paradas f \<le> 2
               \<and> ((osrm gs = OsrmFailed \<or> osrm gs = Routes []) \<longrightarrow>
                    coordinates (f_geometry f) = map (\<lambda>p. (lon p, lat p)) gs
                    \<and> 2 \<le> length (coordinates (f_geometry f)))))
       \<and> (\<forall>(nominatim :: nat \<Rightarrow> string \<Rightarrow> 'c nominatim_reply) osrm clock i rows st f.
            f \<in> set (features (snd (main_loop nominatim osrm clock i rows st))) \<longrightarrow>
            f \<in> set (features st) \<or> f_num_paradas f \<le> 2)"
proof -
  note s = validar_stops [OF assms]
  note a = validar_Aceptado [OF assms]
  have len: "2 \<le> length (t_stops t)" "length (t_stops t) \<le> 4" using s by simp_all
  have ends: "hd (t_stops t) = get_text (r_origen row)" "last (t_stops t) = get_text (r_destino row)"
    using s by simp_all
  have emit: "\<forall>(nominatim :: nat \<Rightarrow> string \<Rightarrow> 'c nominatim_reply) osrm st gs st1.
            geocode_stops nominatim (t_viaje_id t) (t_stops t) (t_stops t) [] st
              = (Inr (Some gs), st1) \<longrightarrow>
            (\<exists>f st2. process_row nominatim osrm ahora row st = (None, st2)
               \<and> features st2 = features st @ [f]
               \<and> f_num_paradas f = length (t_stops t) - 2 \<and> f_num_paradas f \<le> 2
               \<and> ((osrm gs = OsrmFailed \<or> osrm gs = Routes []) \<longrightarrow>
                    coordinates (f_geometry f) = map (\<lambda>p. (lon p, lat p)) gs
                    \<and> 2 \<le> length (coordinates (f_geometry f))))"
  proof (intro allI impI)
    fix nominatim :: "nat \<Rightarrow> string \<Rightarrow> 'c nominatim_reply"
    fix osrm st gs st1
    assume g: "geocode_stops nominatim (t_viaje_id t) (t_stops t) (t_stops t) [] st
                 = (Inr (Some gs), st1)"
    from process_row_accepted [OF assms g, of osrm]
    obtain f st2 where r: "process_row nominatim osrm ahora row st = (None, st2)"
      "features st2 = features st @ [f]" "length gs = length (t_stops t)"
      "f_num_paradas f = length (t_stops t) - 2"
      "(osrm gs = OsrmFailed \<or> osrm gs = Routes []) \<longrightarrow>
         f_geometry f = \<lparr>gtype = ''LineString'', coordinates = map (\<lambda>p. (lon p, lat p)) gs\<rparr>"
      by blast
    have "f_num_paradas f \<le> 2" using r(4) len by simp
    moreover have "(osrm gs = OsrmFailed \<or> osrm gs = Routes []) \<longrightarrow>
        coordinates (f_geometry f) = map (\<lambda>p. (lon p, lat p)) gs
        \<and> 2 \<le> length (coordinates (f_geometry f))"
      using r(3) r(5) len by auto
    ultimately show "\<exists>f st2. process_row nominatim osrm ahora row st = (None, st2)
               \<and> features st2 = features st @ [f]
               \<and> f_num_paradas f = length (t_stops t) - 2 \<and> f_num_paradas f \<le> 2
               \<and> ((osrm gs = OsrmFailed \<or> osrm gs = Routes []) \<longrightarrow>
                    coordinates (f_geometry f) = map (\<lambda>p. (lon p, lat p)) gs
                    \<and> 2 \<le> length (coordinates (f_geometry f)))"
      using r(1) r(2) r(4) by blast
  qed
  have run: "\<forall>(nominatim :: nat \<Rightarrow> string \<Rightarrow> 'c nominatim_reply) osrm clock i rows st f.
            f \<in> set (features (snd (main_loop nominatim osrm clock i rows st))) \<longrightarrow>
            f \<in> set (features st) \<or> f_num_paradas f \<le> 2"
    using main_loop_features by blast
  show ?thesis
    using s ends a(1) a(2) len emit run by (intro conjI) assumption+
qed


section \<open>What ends the run\<close>

text \<open>The loop body when the request for one stop fails after the stops before it.\<close>

lemma process_row_geocode_raise:
  assumes "validar ahora row = Aceptado t"
    and "t_stops t = pre @ s # post"
    and "geocode_stops nominatim (t_viaje_id t) (t_stops t) pre [] st = (Inr (Some gs), st0)"
    and "normalize_place s \<noteq> []"
    and "cache st0 (normalize_place s) = None"
    and "nominatim (length (lookups st0)) s = RequestFailed"
  shows "process_row nominatim osrm ahora row st
           = (Some RequestError, st0\<lparr>lookups := lookups st0 @ [s]\<rparr>)"
proof -
  have g: "geocode nominatim s st0 = (Inl RequestError, st0\<lparr>lookups := lookups st0 @ [s]\<rparr>)"
    using assms(4-6) by (simp add: geocode_def)
  have "geocode_stops nominatim (t_viaje_id t) (t_stops t) (t_stops t) [] st
          = geocode_stops nominatim (t_viaje_id t) (t_stops t) (pre @ s # post) [] st"
    using assms(2) by simp
  also have "\<dots> = geocode_stops nominatim (t_viaje_id t) (t_stops t) (s # post) gs st0"
    using assms(3) by (simp add: geocode_stops_append [of _ _ _ pre "s # post"] del: geocode_stops.simps)
  finally have "geocode_stops nominatim (t_viaje_id t) (t_stops t) (t_stops t) [] st
          = geocode_stops nominatim (t_viaje_id t) (t_stops t) (s # post) gs st0" .
  then have "geocode_stops nominatim (t_viaje_id t) (t_stops t) (t_stops t) [] st
          = (Inl RequestError, st0\<lparr>lookups := lookups st0 @ [s]\<rparr>)"
    using g by simp
  then show ?thesis
    using assms(1) by (simp add: process_row_def)
qed

text \<open>
  Claim C1, amended. When the geocoding request for a stop of an accepted trip
  fails, after the stops before it were geocoded, the error is not caught: it
  leaves the loop at that row with the query recorded, no rejection counted, no
  feature added and nothing cached for the stop, and the rows after it are not
  processed.
\<close>

theorem geocode_error_aborts_run:
  assumes "validar (clock i) row = Aceptado t"
    and "t_stops t = pre @ s # post"
    and "geocode_stops nominatim (t_viaje_id t) (t_stops t) pre [] st = (Inr (Some gs), st0)"
    and "normalize_place s \<noteq> []"
    and "cache st0 (normalize_place s) = None"
    and "nominatim (length (lookups st0)) s = RequestFailed"
  shows "main_loop nominatim osrm clock i (row # rows) st
           = (Some RequestError, st0\<lparr>lookups := lookups st0 @ [s]\<rparr>)
       \<and> descartados (snd (main_loop nominatim osrm clock i (row # rows) st)) = descartados st
       \<and> features (snd (main_loop nominatim osrm clock i (row # rows) st)) = features st
       \<and> cache (snd (main_loop nominatim osrm clock i (row # rows) st)) (normalize_place s) = None"
proof -
  have "process_row nominatim osrm (clock i) row st
          = (Some RequestError, st0\<lparr>lookups := lookups st0 @ [s]\<rparr>)"
    using assms by (rule process_row_geocode_raise)
  then have m: "main_loop nominatim osrm clock i (row # rows) st
          = (Some RequestError, st0\<lparr>lookups := lookups st0 @ [s]\<rparr>)"
    by simp
  have f: "descartados st0 = descartados st \<and> features st0 = features st"
    using geocode_stops_frame [of nominatim "t_viaje_id t" "t_stops t" pre "[]" st] assms(3)
    by simp
  show ?thesis unfolding m using f assms(5) by simp
qed

lemma process_row_counts:
  assumes "provider_answers nominatim"
    and "get_text (r_destino row) = [] \<or> get_text (r_origen row) = []
           \<or> parse_fecha (cell_str (r_fecha row)) \<noteq> Inl ValueError"
  shows "fst (process_row nominatim osrm ahora row st) = None
       \<and> length (features (snd (process_row nominatim osrm ahora row st)))
           + descartados (snd (process_row nominatim osrm ahora row st))
         = Suc (length (features st) + descartados st)"
proof (cases "validar ahora row")
  case (Descartado ev)
  then show ?thesis by (simp add: process_row_def descartar_def log_def)
next
  case (Excepcion e)
  from validar_Excepcion [OF Excepcion] have "get_text (r_destino row) \<noteq> []"
    "get_text (r_origen row) \<noteq> []" "parse_fecha (cell_str (r_fecha row)) = Inl e"
    by simp_all
  moreover from this have "e = ValueError" using parse_fecha_error by blast
  ultimately show ?thesis using assms(2) by simp
next
  case (Aceptado t)
  obtain r st1 where g: "geocode_stops nominatim (t_viaje_id t) (t_stops t) (t_stops t) [] st = (r, st1)"
    by (cases "geocode_stops nominatim (t_viaje_id t) (t_stops t) (t_stops t) [] st")
  have fr: "features st1 = features st" "descartados st1 = descartados st"
    using geocode_stops_frame [of nominatim "t_viaje_id t" "t_stops t" "t_stops t" "[]" st] g
    by simp_all
  from geocode_stops_no_raise [OF assms(1), of "t_viaje_id t" "t_stops t" "t_stops t" "[]" st] g
  obtain v where r: "r = Inr v" by auto
  show ?thesis
  proof (cases v)
    case None
    then show ?thesis using Aceptado g r fr by (simp add: process_row_def)
  next
    case (Some gs)
    from process_row_accepted [OF Aceptado, of nominatim st gs st1 osrm] g r Some
    obtain f st2 where "process_row nominatim osrm ahora row st = (None, st2)"
      "features st2 = features st @ [f]" "descartados st2 = descartados st"
      by blast
    then show ?thesis by simp
  qed
qed

lemma main_loop_counts:
  assumes "provider_answers nominatim"
  shows "(\<forall>row \<in> set rows. get_text (r_destino row) = [] \<or> get_text (r_origen row) = []
              \<or> parse_fecha (cell_str (r_fecha row)) \<noteq> Inl ValueError)
     \<Longrightarrow> fst (main_loop nominatim osrm clock i rows st) = None
       \<and> length (features (snd (main_loop nominatim osrm clock i rows st)))
           + descartados (snd (main_loop nominatim osrm clock i rows st))
         = length (features st) + descartados st + length rows"
proof (induction rows arbitrary: i st)
  case Nil
  show ?case by simp
next
  case (Cons row rows)
  obtain r st1 where p: "process_row nominatim osrm (clock i) row st = (r, st1)"
    by (cases "process_row nominatim osrm (clock i) row st")
  have "get_text (r_destino row) = [] \<or> get_text (r_origen row) = []
           \<or> parse_fecha (cell_str (r_fecha row)) \<noteq> Inl ValueError"
    using Cons.prems by simp
  from process_row_counts [OF assms this, of osrm "clock i" st] p
  have r: "r = None" and c: "length (features st1) + descartados st1
      = Suc (length (features st) + descartados st)"
    by simp_all
  have ih: "fst (main_loop nominatim osrm clock (Suc i) rows st1) = None
       \<and> length (features (snd (main_loop nominatim osrm clock (Suc i) rows st1)))
           + descartados (snd (main_loop nominatim osrm clock (Suc i) rows st1))
         = length (features st1) + descartados st1 + length rows"
    using Cons.IH [of "Suc i" st1] Cons.prems by simp
  show ?case using p r c ih by simp
qed

text \<open>
  Claim C2, amended. When every row that has a destination and an origin has a
  well-formed date, and the geocoding provider answers every query with a list of
  candidates whose first one, when there is one, has its latitude and longitude,
  the loop processes all rows whatever the number of rejections: it ends without
  an exception and each row has produced one feature or one rejection. A row with
  a destination and an origin whose date is malformed is not rejected: the
  \<open>ValueError\<close> of \<open>parse_fecha\<close> ends the loop at that row.
\<close>

theorem run_completes:
  "(provider_answers nominatim
      \<and> (\<forall>row \<in> set rows. get_text (r_destino row) = [] \<or> get_text (r_origen row) = []
              \<or> parse_fecha (cell_str (r_fecha row)) \<noteq> Inl ValueError)
    \<longrightarrow> fst (main_loop nominatim osrm clock i rows st) = None
       \<and> length (features (snd (main_loop nominatim osrm clock i rows st)))
           + descartados (snd (main_loop nominatim osrm clock i rows st))
         = length (features st) + descartados st + length rows)
   \<and> (get_text (r_destino row) \<noteq> [] \<and> get_text (r_origen row) \<noteq> []
        \<and> parse_fecha (cell_str (r_fecha row)) = Inl ValueError
    \<longrightarrow> main_loop nominatim osrm clock i (row # rows) st = (Some ValueError, st))"
proof (intro conjI impI)
  assume "provider_answers nominatim
      \<and> (\<forall>row \<in> set rows. get_text (r_destino row) = [] \<or> get_text (r_origen row) = []
              \<or> parse_fecha (cell_str (r_fecha row)) \<noteq> Inl ValueError)"
  then show "fst (main_loop nominatim osrm clock i rows st) = None"
    and "length (features (snd (main_loop nominatim osrm clock i rows st)))
           + descartados (snd (main_loop nominatim osrm clock i rows st))
         = length (features st) + descartados st + length rows"
    using main_loop_counts [of nominatim rows osrm clock i st] by blast+
next
  assume "get_text (r_destino row) \<noteq> [] \<and> get_text (r_origen row) \<noteq> []
        \<and> parse_fecha (cell_str (r_fecha row)) = Inl ValueError"
  then have "validar (clock i) row = Excepcion ValueError"
    by (simp add: validar_bad_date)
  then show "main_loop nominatim osrm clock i (row # rows) st = (Some ValueError, st)"
    by (simp add: process_row_def)
qed

lemma validar_fila: "validar (clock_feb 0) fila = Aceptado viaje_t1"
  by code_simp

lemma validar_fila_parada: "validar (clock_feb 0) fila_parada = Aceptado viaje_parada"
  by code_simp

lemma keys:
  "normalize_place ''Madrid'' = ''madrid''"
  "normalize_place ''Zaragoza'' = ''zaragoza''"
  "normalize_place ''Barcelona'' = ''barcelona''"
  by code_simp+

lemma fila_fecha_iso_bad:
  "get_text (r_destino fila_fecha_iso) \<noteq> []"
  "get_text (r_origen fila_fecha_iso) \<noteq> []"
  "parse_fecha (cell_str (r_fecha fila_fecha_iso)) = Inl ValueError"
  by code_simp+

text \<open>
  Claim C1, as stated: a provider error while geocoding a stop rejects that trip
  and the run goes on. It fails on two copies of an accepted row when the provider
  is down: the run ends with the error at the first row, the counter is still 0, and
  the only query sent is for the first stop of the first row.
\<close>

theorem geocode_error_aborts_counterexample:
  "validar (clock_feb 0) fila = Aceptado viaje_t1
     \<and> fst (main_loop nominatim_down osrm_down clock_feb 0 [fila, fila] (initial Map.empty))
          = Some RequestError
     \<and> descartados (snd (main_loop nominatim_down osrm_down clock_feb 0 [fila, fila]
          (initial Map.empty))) = 0
     \<and> lookups (snd (main_loop nominatim_down osrm_down clock_feb 0 [fila, fila]
          (initial Map.empty))) = [''Madrid'']"
proof -
  let ?st = "initial Map.empty :: int state"
  have s: "t_stops viaje_t1 = [] @ ''Madrid'' # [''Barcelona'']" by (simp add: viaje_t1_def)
  have g: "geocode_stops nominatim_down (t_viaje_id viaje_t1) (t_stops viaje_t1) [] [] ?st
             = (Inr (Some []), ?st)" by simp
  have k: "normalize_place ''Madrid'' \<noteq> []" by (simp add: keys)
  have c: "cache ?st (normalize_place ''Madrid'') = None" by (simp add: initial_def)
  have d: "nominatim_down (length (lookups ?st)) ''Madrid'' = RequestFailed"
    by (simp add: nominatim_down_def)
  have "process_row nominatim_down osrm_down (clock_feb 0) fila ?st
          = (Some RequestError, ?st\<lparr>lookups := lookups ?st @ [''Madrid'']\<rparr>)"
    using validar_fila s g k c d by (rule process_row_geocode_raise)
  then have "main_loop nominatim_down osrm_down clock_feb 0 [fila, fila] ?st
          = (Some RequestError, ?st\<lparr>lookups := lookups ?st @ [''Madrid'']\<rparr>)"
    by simp
  then show ?thesis using validar_fila by (simp add: initial_def)
qed

theorem geocode_error_aborts_run_witness:
  "validar (clock_feb 0) fila_parada = Aceptado viaje_parada
     \<and> t_stops viaje_parada = [''Madrid''] @ ''Zaragoza'' # [''Barcelona'']
     \<and> fst (geocode_stops nominatim_flaky (t_viaje_id viaje_parada) (t_stops viaje_parada)
              [''Madrid''] [] (initial Map.empty)) = Inr (Some [punto])
     \<and> fst (main_loop nominatim_flaky osrm_down clock_feb 0 [fila_parada, fila]
              (initial Map.empty)) = Some RequestError
     \<and> lookups (snd (main_loop nominatim_flaky osrm_down clock_feb 0 [fila_parada, fila]
              (initial Map.empty))) = [''Madrid'', ''Zaragoza'']
     \<and> descartados (snd (main_loop nominatim_flaky osrm_down clock_feb 0 [fila_parada, fila]
              (initial Map.empty))) = 0"
proof -
  let ?st = "initial Map.empty :: int state"
  let ?mid = "?st\<lparr>lookups := lookups ?st @ [''Madrid''],
                   cache := (cache ?st)(normalize_place ''Madrid'' \<mapsto> Some punto)\<rparr>"
  have s: "t_stops viaje_parada = [''Madrid''] @ ''Zaragoza'' # [''Barcelona'']"
    by (simp add: viaje_parada_def)
  have "geocode nominatim_flaky ''Madrid'' ?st = (Inr (Some punto), ?mid)"
    by (simp add: geocode_def Let_def nominatim_flaky_def nominatim_fixed_def punto_def keys initial_def)
  then have g: "geocode_stops nominatim_flaky (t_viaje_id viaje_parada) (t_stops viaje_parada)
              [''Madrid''] [] ?st = (Inr (Some [punto]), ?mid)"
    by simp
  have k: "normalize_place ''Zaragoza'' \<noteq> []" by (simp add: keys)
  have c: "cache ?mid (normalize_place ''Zaragoza'') = None" by (simp add: initial_def keys)
  have d: "nominatim_flaky (length (lookups ?mid)) ''Zaragoza'' = RequestFailed"
    by (simp add: nominatim_flaky_def initial_def)
  note t = geocode_error_aborts_run [where clock = clock_feb and i = 0
      and nominatim = nominatim_flaky and osrm = osrm_down and rows = "[fila]",
      OF validar_fila_parada s g k c d]
  from t have m: "main_loop nominatim_flaky osrm_down clock_feb 0 [fila_parada, fila] ?st
      = (Some RequestError, ?mid\<lparr>lookups := lookups ?mid @ [''Zaragoza'']\<rparr>)"
    by blast
  have r1: "fst (main_loop nominatim_flaky osrm_down clock_feb 0 [fila_parada, fila] ?st)
              = Some RequestError" unfolding m by simp
  have r2: "lookups (snd (main_loop nominatim_flaky osrm_down clock_feb 0 [fila_parada, fila] ?st))
              = [''Madrid'', ''Zaragoza'']" unfolding m by (simp add: initial_def)
  have r3: "descartados (snd (main_loop nominatim_flaky osrm_down clock_feb 0 [fila_parada, fila] ?st))
              = 0" unfolding m by (simp add: initial_def)
  have g1: "fst (geocode_stops nominatim_flaky (t_viaje_id viaje_parada) (t_stops viaje_parada)
              [''Madrid''] [] ?st) = Inr (Some [punto])" unfolding g by simp
  show ?thesis by (intro conjI) (rule validar_fila_parada s g1 r1 r2 r3)+
qed

text \<open>
  Claim C2, as stated: all rows are processed whatever the rows are, a row with a
  malformed date included. It fails on a row with origin and destination whose date
  is written year first: \<open>parse_fecha\<close> raises, the run ends there with no feature
  and no rejection, and the row after it is not processed.
\<close>

theorem run_completes_counterexample:
  "get_text (r_destino fila_fecha_iso) \<noteq> [] \<and> get_text (r_origen fila_fecha_iso) \<noteq> []
   \<and> fst (main_loop nominatim_fixed osrm_down clock_feb 0 [fila_fecha_iso, fila] (initial Map.empty))
     = Some ValueError
   \<and> features (snd (main_loop nominatim_fixed osrm_down clock_feb 0 [fila_fecha_iso, fila]
        (initial Map.empty))) = []
   \<and> descartados (snd (main_loop nominatim_fixed osrm_down clock_feb 0 [fila_fecha_iso, fila]
        (initial Map.empty))) = 0"
proof -
  have "validar (clock_feb 0) fila_fecha_iso = Excepcion ValueError"
    using fila_fecha_iso_bad by (rule validar_bad_date)
  then have "main_loop nominatim_fixed osrm_down clock_feb 0 [fila_fecha_iso, fila] (initial Map.empty)
      = (Some ValueError, initial Map.empty)"
    by (simp add: process_row_def)
  then show ?thesis using fila_fecha_iso_bad by (simp add: initial_def)
qed

theorem run_completes_witness:
  "fst (main_loop nominatim_fixed osrm_down clock_feb 0 [fila_sin_destino, fila]
          (initial Map.empty)) = None
   \<and> length (features (snd (main_loop nominatim_fixed osrm_down clock_feb 0
          [fila_sin_destino, fila] (initial Map.empty))))
       + descartados (snd (main_loop nominatim_fixed osrm_down clock_feb 0
          [fila_sin_destino, fila] (initial Map.empty))) = 2
   \<and> main_loop nominatim_fixed osrm_down clock_feb 3 [fila_fecha_iso, fila] (initial Map.empty)
       = (Some ValueError, initial Map.empty)"
proof -
  let ?st = "initial Map.empty :: int state"
  have p: "provider_answers nominatim_fixed"
    by (simp add: provider_answers_def nominatim_fixed_def)
  have a: "get_text (r_destino fila_sin_destino) = []" by code_simp
  have b: "parse_fecha (cell_str (r_fecha fila)) \<noteq> Inl ValueError" by code_simp
  have rows: "\<forall>row \<in> set [fila_sin_destino, fila].
      get_text (r_destino row) = [] \<or> get_text (r_origen row) = []
        \<or> parse_fecha (cell_str (r_fecha row)) \<noteq> Inl ValueError"
    using a b by simp
  from run_completes [of nominatim_fixed "[fila_sin_destino, fila]" osrm_down clock_feb 0 ?st] p rows
  have r1: "fst (main_loop nominatim_fixed osrm_down clock_feb 0 [fila_sin_destino, fila] ?st) = None"
    and r2: "length (features (snd (main_loop nominatim_fixed osrm_down clock_feb 0
          [fila_sin_destino, fila] ?st)))
       + descartados (snd (main_loop nominatim_fixed osrm_down clock_feb 0
          [fila_sin_destino, fila] ?st)) = length (features ?st) + descartados ?st
            + length [fila_sin_destino, fila]"
    by blast+
  from r2 have r2': "length (features (snd (main_loop nominatim_fixed osrm_down clock_feb 0
          [fila_sin_destino, fila] ?st)))
       + descartados (snd (main_loop nominatim_fixed osrm_down clock_feb 0
          [fila_sin_destino, fila] ?st)) = 2"
    by (simp add: initial_def)
  from run_completes [where row = fila_fecha_iso and rows = "[fila]" and nominatim = nominatim_fixed
      and osrm = osrm_down and clock = clock_feb and i = 3 and st = ?st] fila_fecha_iso_bad
  have r3: "main_loop nominatim_fixed osrm_down clock_feb 3 [fila_fecha_iso, fila] ?st
       = (Some ValueError, ?st)"
    by blast
  show ?thesis by (intro conjI) (rule r1 r2' r3)+
qed


section \<open>The examples of the fallback and of the stop list\<close>

lemma geocode_stops_fila:
  "fst (geocode_stops nominatim_fixed (t_viaje_id viaje_t1) (t_stops viaje_t1)
          (t_stops viaje_t1) [] (initial Map.empty)) = Inr (Some [punto, punto])"
  by (simp add: viaje_t1_def geocode_def Let_def nominatim_fixed_def punto_def keys initial_def)

lemma geocode_stops_fila_parada:
  "fst (geocode_stops nominatim_fixed (t_viaje_id viaje_parada) (t_stops viaje_parada)
          (t_stops viaje_parada) [] (initial Map.empty)) = Inr (Some [punto, punto, punto])"
  by (simp add: viaje_parada_def viaje_t1_def geocode_def Let_def nominatim_fixed_def punto_def
      keys initial_def)

theorem fallback_geometry_witness:
  "validar (clock_feb 0) fila = Aceptado viaje_t1
     \<and> fst (geocode_stops nominatim_fixed (t_viaje_id viaje_t1) (t_stops viaje_t1)
          (t_stops viaje_t1) [] (initial Map.empty)) = Inr (Some [punto, punto])
     \<and> osrm_down [punto, punto] = OsrmFailed
     \<and> fst (process_row nominatim_fixed osrm_down (clock_feb 0) fila (initial Map.empty)) = None
     \<and> map f_geometry (features (snd (process_row nominatim_fixed osrm_down (clock_feb 0) fila
          (initial Map.empty))))
        = [\<lparr>gtype = ''LineString'', coordinates = [(- 3, 40), (- 3, 40)]\<rparr>]"
proof -
  let ?st = "initial Map.empty :: int state"
  let ?g = "geocode_stops nominatim_fixed (t_viaje_id viaje_t1) (t_stops viaje_t1)
              (t_stops viaje_t1) [] ?st"
  have g: "?g = (Inr (Some [punto, punto]), snd ?g)"
    using geocode_stops_fila by (metis prod.collapse)
  have o: "osrm_down [punto, punto] = OsrmFailed" by (simp add: osrm_down_def)
  then have o': "osrm_down [punto, punto] = OsrmFailed \<or> osrm_down [punto, punto] = Routes []"
    by simp
  from fallback_geometry [where ahora = "clock_feb 0" and nominatim = nominatim_fixed
      and osrm = osrm_down, OF validar_fila g o']
  obtain f st2 where p: "process_row nominatim_fixed osrm_down (clock_feb 0) fila ?st = (None, st2)"
    and q: "features st2 = features ?st @ [f]"
    and r: "f_geometry f = \<lparr>gtype = ''LineString'',
              coordinates = map (\<lambda>p. (lon p, lat p)) [punto, punto]\<rparr>"
    by blast
  have r1: "fst (process_row nominatim_fixed osrm_down (clock_feb 0) fila ?st) = None"
    unfolding p by simp
  have r2: "map f_geometry (features (snd (process_row nominatim_fixed osrm_down (clock_feb 0) fila
          ?st))) = [\<lparr>gtype = ''LineString'', coordinates = [(- 3, 40), (- 3, 40)]\<rparr>]"
    unfolding p using q r by (simp add: initial_def punto_def)
  show ?thesis by (intro conjI) (rule validar_fila geocode_stops_fila o r1 r2)+
qed

theorem stops_shape_witness:
  "validar (clock_feb 0) fila_parada = Aceptado viaje_parada
     \<and> t_stops viaje_parada = [''Madrid'', ''Zaragoza'', ''Barcelona'']
     \<and> get_text (r_origen fila_parada) = ''Madrid''
     \<and> get_text (r_destino fila_parada) = ''Barcelona''
     \<and> fst (geocode_stops nominatim_fixed (t_viaje_id viaje_parada) (t_stops viaje_parada)
          (t_stops viaje_parada) [] (initial Map.empty)) = Inr (Some [punto, punto, punto])
     \<and> map f_num_paradas (features (snd (process_row nominatim_fixed osrm_down (clock_feb 0)
          fila_parada (initial Map.empty)))) = [1]
     \<and> map coordinates (map f_geometry (features (snd (process_row nominatim_fixed osrm_down
          (clock_feb 0) fila_parada (initial Map.empty)))))
        = [[(- 3, 40), (- 3, 40), (- 3, 40)]]"
proof -
  let ?st = "initial Map.empty :: int state"
  let ?g = "geocode_stops nominatim_fixed (t_viaje_id viaje_parada) (t_stops viaje_parada)
              (t_stops viaje_parada) [] ?st"
  have s: "t_stops viaje_parada = [''Madrid'', ''Zaragoza'', ''Barcelona'']"
    by (simp add: viaje_parada_def)
  have g: "?g = (Inr (Some [punto, punto, punto]), snd ?g)"
    using geocode_stops_fila_parada by (metis prod.collapse)
  have o: "osrm_down [punto, punto, punto] = OsrmFailed" by (simp add: osrm_down_def)
  note t = stops_shape [where 'c = int, OF validar_fila_parada]
  from t have a: "hd (t_stops viaje_parada) = get_text (r_origen fila_parada)"
    and b: "last (t_stops viaje_parada) = get_text (r_destino fila_parada)"
    by blast+
  from t have "?g = (Inr (Some [punto, punto, punto]), snd ?g) \<longrightarrow>
      (\<exists>f st2. process_row nominatim_fixed osrm_down (clock_feb 0) fila_parada ?st = (None, st2)
         \<and> features st2 = features ?st @ [f]
         \<and> f_num_paradas f = length (t_stops viaje_parada) - 2 \<and> f_num_paradas f \<le> 2
         \<and> ((osrm_down [punto, punto, punto] = OsrmFailed
               \<or> osrm_down [punto, punto, punto] = Routes []) \<longrightarrow>
              coordinates (f_geometry f) = map (\<lambda>p. (lon p, lat p)) [punto, punto, punto]
              \<and> 2 \<le> length (coordinates (f_geometry f))))"
    by blast
  with g o obtain f st2
    where p: "process_row nominatim_fixed osrm_down (clock_feb 0) fila_parada ?st = (None, st2)"
      and q: "features st2 = features ?st @ [f]"
      and n: "f_num_paradas f = length (t_stops viaje_parada) - 2"
      and c: "coordinates (f_geometry f) = map (\<lambda>p. (lon p, lat p)) [punto, punto, punto]"
    by blast
  have a': "get_text (r_origen fila_parada) = ''Madrid''" using a by (simp add: s)
  have b': "get_text (r_destino fila_parada) = ''Barcelona''" using b by (simp add: s)
  have r1: "map f_num_paradas (features (snd (process_row nominatim_fixed osrm_down (clock_feb 0)
          fila_parada ?st))) = [1]"
    unfolding p using q n by (simp add: initial_def s)
  have r2: "map coordinates (map f_geometry (features (snd (process_row nominatim_fixed osrm_down
          (clock_feb 0) fila_parada ?st)))) = [[(- 3, 40), (- 3, 40), (- 3, 40)]]"
    unfolding p using q c by (simp add: initial_def punto_def)
  show ?thesis
    by (intro conjI) (rule validar_fila_parada s a' b' geocode_stops_fila_parada r1 r2)+
qed

end
